theory Spec2Isabelle
  imports Complex_Main "HOL-Library.Sublist" "HOL-Library.Log_Nat"
begin

section \<open>JavaScript values used by the time parser\<close>

text \<open>
  A JavaScript number is either \<open>NaN\<close> or a finite number. A finite number is kept as the
  rational it denotes. Sums, differences and products are taken exactly: the parsers
  build whole numbers from hours and minutes, and on whole numbers below \<open>2^53\<close> these
  operations on doubles are exact. The one division of the program is rounded to the
  nearest double. Infinities are left out.
\<close>

datatype jsnum = NaN | Num rat

text \<open>
  A field of a feature's property bag: absent (\<open>undefined\<close>), \<open>null\<close>, a string or a
  number. A string is a list of characters with codes below 256.
\<close>

datatype jsval = JUndefined | JNull | JStr string | JNum jsnum

datatype exn = TypeError

text \<open>Truthiness (\<open>!v\<close>, \<open>v || w\<close>, \<open>v && w\<close>).\<close>

fun truthy :: "jsval \<Rightarrow> bool" where
  "truthy JUndefined = False"
| "truthy JNull = False"
| "truthy (JStr s) = (s \<noteq> [])"
| "truthy (JNum NaN) = False"
| "truthy (JNum (Num r)) = (r \<noteq> 0)"

definition jsOr :: "jsval \<Rightarrow> jsval \<Rightarrow> jsval" where
  "jsOr a b = (if truthy a then a else b)"

subsection \<open>Arithmetic and comparison on numbers\<close>

text \<open>Every comparison with \<open>NaN\<close> is false; every arithmetic result with \<open>NaN\<close> is \<open>NaN\<close>.\<close>

fun numAdd :: "jsnum \<Rightarrow> jsnum \<Rightarrow> jsnum" where
  "numAdd (Num a) (Num b) = Num (a + b)"
| "numAdd _ _ = NaN"

fun numSub :: "jsnum \<Rightarrow> jsnum \<Rightarrow> jsnum" where
  "numSub (Num a) (Num b) = Num (a - b)"
| "numSub _ _ = NaN"

fun numMul :: "jsnum \<Rightarrow> jsnum \<Rightarrow> jsnum" where
  "numMul (Num a) (Num b) = Num (a * b)"
| "numMul _ _ = NaN"

text \<open>
  Rounding to the nearest double, ties to the even significand: \<open>floorLog2 x\<close> is the
  exponent \<open>e\<close> with \<open>2^e \<le> x < 2^(e+1)\<close>, and a double with that exponent is a multiple
  of \<open>2^(e-52)\<close>. The range of the exponent is not limited: the quotients of the program
  are quotients of minute counts, far from the overflow and underflow thresholds.
\<close>

definition roundHalfEven :: "rat \<Rightarrow> int" where
  "roundHalfEven q =
     (let f = \<lfloor>q\<rfloor>; r = q - of_int f
      in if r < 1 / 2 then f else if 1 / 2 < r then f + 1 else if even f then f else f + 1)"

definition floorLog2 :: "rat \<Rightarrow> int" where
  "floorLog2 x =
     (let k = bitlen (fst (quotient_of x)) - bitlen (snd (quotient_of x))
      in if 2 powi k \<le> x then k else k - 1)"

definition toDouble :: "rat \<Rightarrow> rat" where
  "toDouble x =
     (if x = 0 then 0
      else (let e = floorLog2 \<bar>x\<bar>; ulp = 2 powi (e - 52)
            in sgn x * of_int (roundHalfEven (\<bar>x\<bar> / ulp)) * ulp))"

text \<open>
  Division is only ever applied to a divisor already tested to be positive; a zero divisor
  (an infinity or \<open>NaN\<close> in JavaScript) is mapped to \<open>NaN\<close> here.
\<close>

fun numDiv :: "jsnum \<Rightarrow> jsnum \<Rightarrow> jsnum" where
  "numDiv (Num a) (Num b) = (if b = 0 then NaN else Num (toDouble (a / b)))"
| "numDiv _ _ = NaN"

fun numLt :: "jsnum \<Rightarrow> jsnum \<Rightarrow> bool" where
  "numLt (Num a) (Num b) = (a < b)"
| "numLt _ _ = False"

fun numLe :: "jsnum \<Rightarrow> jsnum \<Rightarrow> bool" where
  "numLe (Num a) (Num b) = (a \<le> b)"
| "numLe _ _ = False"

definition numGt :: "jsnum \<Rightarrow> jsnum \<Rightarrow> bool" where
  "numGt a b = numLt b a"

definition numGe :: "jsnum \<Rightarrow> jsnum \<Rightarrow> bool" where
  "numGe a b = numLe b a"

text \<open>Strict equality \<open>===\<close> on numbers.\<close>

fun numEq :: "jsnum \<Rightarrow> jsnum \<Rightarrow> bool" where
  "numEq (Num a) (Num b) = (a = b)"
| "numEq _ _ = False"

text \<open>\<open>Math.max\<close> and \<open>Math.min\<close> of two arguments.\<close>

fun mathMax :: "jsnum \<Rightarrow> jsnum \<Rightarrow> jsnum" where
  "mathMax (Num a) (Num b) = Num (max a b)"
| "mathMax _ _ = NaN"

fun mathMin :: "jsnum \<Rightarrow> jsnum \<Rightarrow> jsnum" where
  "mathMin (Num a) (Num b) = Num (min a b)"
| "mathMin _ _ = NaN"

subsection \<open>Characters and strings\<close>

definition isDigit :: "char \<Rightarrow> bool" where
  "isDigit c = (c \<in> set ''0123456789'')"

text \<open>
  The class \<open>\s\<close> of regular expressions, which is also what \<open>trim\<close> and \<open>parseInt\<close>
  strip: tab, line feed, vertical tab, form feed, carriage return, space and the
  no-break space (the members below code 256).
\<close>

definition isSpace :: "char \<Rightarrow> bool" where
  "isSpace c = (c \<in> set [CHR 0x09, CHR 0x0A, CHR 0x0B, CHR 0x0C, CHR 0x0D, CHR '' '', CHR 0xA0])"

text \<open>
  \<open>toUpperCase\<close> and \<open>toLowerCase\<close> change the ASCII letters. A character above code
  127 is left as it is here, where JavaScript maps some of them: the model is exact on
  ASCII strings.
\<close>

definition toUpperChar :: "char \<Rightarrow> char" where
  "toUpperChar c =
     (case map_of (zip ''abcdefghijklmnopqrstuvwxyz'' ''ABCDEFGHIJKLMNOPQRSTUVWXYZ'') c of
        Some u \<Rightarrow> u | None \<Rightarrow> c)"

definition toLowerChar :: "char \<Rightarrow> char" where
  "toLowerChar c =
     (case map_of (zip ''ABCDEFGHIJKLMNOPQRSTUVWXYZ'' ''abcdefghijklmnopqrstuvwxyz'') c of
        Some l \<Rightarrow> l | None \<Rightarrow> c)"

definition toUpperCase :: "string \<Rightarrow> string" where
  "toUpperCase s = map toUpperChar s"

definition toLowerCase :: "string \<Rightarrow> string" where
  "toLowerCase s = map toLowerChar s"

text \<open>\<open>s.includes(w)\<close>: \<open>w\<close> occurs in \<open>s\<close> as a contiguous piece.\<close>

definition strIncludes :: "string \<Rightarrow> string \<Rightarrow> bool" where
  "strIncludes s w = sublist w s"

definition trim :: "string \<Rightarrow> string" where
  "trim s = rev (dropWhile isSpace (rev (dropWhile isSpace s)))"

text \<open>
  A method call on a value that may be \<open>undefined\<close> (an array element that was not there):
  calling \<open>trim\<close> or \<open>padStart\<close> on \<open>undefined\<close> throws a \<open>TypeError\<close>.
\<close>

definition trimM :: "string option \<Rightarrow> exn + string" where
  "trimM v = (case v of None \<Rightarrow> Inl TypeError | Some s \<Rightarrow> Inr (trim s))"

definition padStart :: "nat \<Rightarrow> char \<Rightarrow> string \<Rightarrow> string" where
  "padStart n c s = replicate (n - length s) c @ s"

definition padStartM :: "nat \<Rightarrow> char \<Rightarrow> string option \<Rightarrow> exn + string" where
  "padStartM n c v = (case v of None \<Rightarrow> Inl TypeError | Some s \<Rightarrow> Inr (padStart n c s))"

text \<open>\<open>s.substring(i, j)\<close> for \<open>i \<le> j\<close>.\<close>

definition substring :: "string \<Rightarrow> nat \<Rightarrow> nat \<Rightarrow> string" where
  "substring s i j = take (j - i) (drop i s)"

text \<open>
  \<open>s.split(c)\<close> for a one-character separator: the pieces between the occurrences of
  \<open>c\<close>, empty pieces included.
\<close>

fun splitOn :: "char \<Rightarrow> string \<Rightarrow> string list" where
  "splitOn c [] = [[]]"
| "splitOn c (x # xs) =
     (if x = c then [] # splitOn c xs
      else (case splitOn c xs of [] \<Rightarrow> [[x]] | p # ps \<Rightarrow> (x # p) # ps))"

text \<open>
  \<open>s.split(/[,;\s]+/)\<close>: the pieces between maximal runs of separators. A string that
  starts (ends) with a separator has an empty first (last) piece. The flag tells whether
  the previous character was a separator; \<open>cur\<close> is the current piece, reversed.
\<close>

definition isSep :: "char \<Rightarrow> bool" where
  "isSep c = (c = CHR '','' \<or> c = CHR '';'' \<or> isSpace c)"

fun splitSepsFrom :: "bool \<Rightarrow> string \<Rightarrow> string \<Rightarrow> string list" where
  "splitSepsFrom inSep cur [] = [rev cur]"
| "splitSepsFrom inSep cur (c # cs) =
     (if isSep c then
        (if inSep then splitSepsFrom True [] cs else rev cur # splitSepsFrom True [] cs)
      else splitSepsFrom False (c # cur) cs)"

definition splitSeps :: "string \<Rightarrow> string list" where
  "splitSeps s = splitSepsFrom False [] s"

text \<open>
  \<open>parseInt(s, 10)\<close>: skip leading white space, read an optional sign, then the longest
  run of decimal digits; \<open>NaN\<close> when there is no digit. An \<open>undefined\<close> argument is first
  turned into the string \<open>undefined\<close>.
\<close>

definition digitVal :: "char \<Rightarrow> nat" where
  "digitVal c = of_char c - 48"

definition digitsVal :: "string \<Rightarrow> nat" where
  "digitsVal ds = foldl (\<lambda>n c. 10 * n + digitVal c) 0 ds"

definition parseInt :: "string \<Rightarrow> jsnum" where
  "parseInt s =
     (let t = dropWhile isSpace s;
          neg = (case t of [] \<Rightarrow> False | c # _ \<Rightarrow> c = CHR ''-'');
          u = (case t of [] \<Rightarrow> [] | c # r \<Rightarrow> if c = CHR ''-'' \<or> c = CHR ''+'' then r else t);
          ds = takeWhile isDigit u
      in if ds = [] then NaN
         else Num (if neg then - of_nat (digitsVal ds) else of_nat (digitsVal ds)))"

definition parseIntV :: "string option \<Rightarrow> jsnum" where
  "parseIntV v = (case v of None \<Rightarrow> parseInt ''undefined'' | Some s \<Rightarrow> parseInt s)"

text \<open>\<open>v || w\<close> where \<open>v\<close> is a string or \<open>undefined\<close> and \<open>w\<close> a string.\<close>

definition strOr :: "string option \<Rightarrow> string \<Rightarrow> string" where
  "strOr v w = (case v of None \<Rightarrow> w | Some s \<Rightarrow> if s = [] then w else s)"

section \<open>Regular expressions\<close>

text \<open>
  The regular expressions of the program, as terms. \<open>Rep lo hi r\<close> is the greedy bounded
  quantifier \<open>r{lo,hi}\<close> (so \<open>r?\<close> is \<open>Rep 0 1 r\<close>), \<open>Star r\<close> the greedy \<open>r*\<close>, and
  \<open>Grp i r\<close> the \<open>i\<close>-th capturing group, counted by opening parentheses.
\<close>

datatype re =
    Lit string
  | Digit
  | Space
  | Seq re re
  | Alt re re
  | Rep nat nat re
  | Star re
  | Grp nat re

type_synonym caps = "nat \<Rightarrow> string option"

text \<open>
  The backtracking matcher: all the ways \<open>r\<close> matches a prefix of the input, in the order a
  backtracking engine tries them. A way is the captures so far, the text just matched and
  the rest of the input. In this program a quantified expression always consumes a
  character and a group is entered at most once, so the rules on empty iterations and on
  clearing captures at each iteration never apply.
\<close>

type_synonym mres = "caps \<times> string \<times> string"

fun rmRep :: "(caps \<Rightarrow> string \<Rightarrow> mres list) \<Rightarrow> nat \<Rightarrow> nat \<Rightarrow> caps \<Rightarrow> string \<Rightarrow> mres list" where
  "rmRep f lo 0 cs s = (if lo = 0 then [(cs, [], s)] else [])"
| "rmRep f lo (Suc k) cs s =
     concat (map (\<lambda>(cs1, m1, r1).
                    map (\<lambda>(cs2, m2, r2). (cs2, m1 @ m2, r2)) (rmRep f (lo - 1) k cs1 r1))
                 (f cs s))
     @ (if lo = 0 then [(cs, [], s)] else [])"

primrec rm :: "re \<Rightarrow> caps \<Rightarrow> string \<Rightarrow> mres list" where
  "rm (Lit w) = (\<lambda>cs s. if prefix w s then [(cs, w, drop (length w) s)] else [])"
| "rm Digit = (\<lambda>cs s. case s of [] \<Rightarrow> [] | x # xs \<Rightarrow> if isDigit x then [(cs, [x], xs)] else [])"
| "rm Space = (\<lambda>cs s. case s of [] \<Rightarrow> [] | x # xs \<Rightarrow> if isSpace x then [(cs, [x], xs)] else [])"
| "rm (Seq a b) = (\<lambda>cs s.
     concat (map (\<lambda>(cs1, m1, r1). map (\<lambda>(cs2, m2, r2). (cs2, m1 @ m2, r2)) (rm b cs1 r1))
                 (rm a cs s)))"
| "rm (Alt a b) = (\<lambda>cs s. rm a cs s @ rm b cs s)"
| "rm (Rep lo hi a) = rmRep (rm a) lo hi"
| "rm (Star a) = (\<lambda>cs s. rmRep (rm a) 0 (length s) cs s)"
| "rm (Grp i a) = (\<lambda>cs s. map (\<lambda>(cs1, m, r). (cs1(i := Some m), m, r)) (rm a cs s))"

definition noCaps :: caps where
  "noCaps = (\<lambda>_. None)"

text \<open>
  \<open>s.match(/^r$/)\<close>: the first way that consumes the whole input. The result is the match
  array: index 0 is the matched text, index \<open>i\<close> the \<open>i\<close>-th group or \<open>undefined\<close>.
\<close>

definition reMatchAll :: "re \<Rightarrow> string \<Rightarrow> caps option" where
  "reMatchAll r s =
     (case List.find (\<lambda>(cs, m, rest). rest = []) (rm r noCaps s) of
        None \<Rightarrow> None
      | Some (cs, m, rest) \<Rightarrow> Some (cs(0 := Some m)))"

text \<open>
  \<open>s.match(/r/)\<close> and \<open>/r/.test(s)\<close> for an expression without anchors: the first way at
  the leftmost position that has one.
\<close>

fun reSearch :: "re \<Rightarrow> string \<Rightarrow> caps option" where
  "reSearch r [] = (case rm r noCaps [] of [] \<Rightarrow> None | (cs, m, rest) # _ \<Rightarrow> Some (cs(0 := Some m)))"
| "reSearch r (c # s) =
     (case rm r noCaps (c # s) of [] \<Rightarrow> reSearch r s | (cs, m, rest) # _ \<Rightarrow> Some (cs(0 := Some m)))"

definition reTest :: "re \<Rightarrow> string \<Rightarrow> bool" where
  "reTest r s = (reSearch r s \<noteq> None)"

section \<open>The day parser\<close>

text \<open>
  \<open>DAY_MAP\<close>. A key looked up here is a piece of an upper-cased string, and no inherited
  property of a plain object has a name without a lower-case letter, so the lookup sees
  the table's own keys only.
\<close>

definition DAY_MAP :: "string \<Rightarrow> int option" where
  "DAY_MAP = map_of
     [(''SU'', 0), (''MO'', 1), (''M'', 1), (''TU'', 2), (''WE'', 3), (''W'', 3),
      (''TH'', 4), (''FR'', 5), (''F'', 5), (''SA'', 6)]"

text \<open>A \<open>Set\<close> of day numbers, in insertion order.\<close>

type_synonym daySet = "int list"

definition setAdd :: "int \<Rightarrow> daySet \<Rightarrow> daySet" where
  "setAdd d days = (if d \<in> set days then days else days @ [d])"

definition setHas :: "daySet \<Rightarrow> int \<Rightarrow> bool" where
  "setHas days d = (d \<in> set days)"

text \<open>
  \<open>const [startStr, endStr] = part.split('-')\<close>: the first two pieces, \<open>undefined\<close> when
  the array is shorter.
\<close>

definition nthOpt :: "'a list \<Rightarrow> nat \<Rightarrow> 'a option" where
  "nthOpt xs i = (if i < length xs then Some (xs ! i) else None)"

text \<open>The body of the loop over the parts: the set before, the set after.\<close>

definition partDays :: "string \<Rightarrow> daySet \<Rightarrow> exn + daySet" where
  "partDays part days =
     (if CHR ''-'' \<in> set part then
        (let pieces = splitOn CHR ''-'' part;
             startStr = nthOpt pieces 0;
             endStr = nthOpt pieces 1
         in case trimM startStr of Inl e \<Rightarrow> Inl e | Inr st \<Rightarrow>
            (case trimM endStr of Inl e \<Rightarrow> Inl e | Inr en \<Rightarrow>
               (case DAY_MAP st of None \<Rightarrow> Inr days | Some startIx \<Rightarrow>
                  (case DAY_MAP en of None \<Rightarrow> Inr days | Some endIx \<Rightarrow>
                     Inr (fold setAdd [startIx..endIx] days)))))
      else
        (case DAY_MAP (trim part) of None \<Rightarrow> Inr days | Some day \<Rightarrow> Inr (setAdd day days)))"

fun forParts :: "string list \<Rightarrow> daySet \<Rightarrow> exn + daySet" where
  "forParts [] days = Inr days"
| "forParts (part # parts) days =
     (case partDays part days of Inl e \<Rightarrow> Inl e | Inr days' \<Rightarrow> forParts parts days')"

text \<open>\<open>parseDays\<close>: \<open>None\<close> is the \<open>null\<close> result.\<close>

definition parseDays :: "jsval \<Rightarrow> exn + daySet option" where
  "parseDays str =
     (case str of
        JStr s \<Rightarrow>
          if s = [] then Inr None
          else (case forParts (splitSeps (toUpperCase s)) [] of
                  Inl e \<Rightarrow> Inl e
                | Inr days \<Rightarrow> Inr (if length days > 0 then Some days else None))
      | _ \<Rightarrow> Inr None)"

section \<open>The time-range parser\<close>

record timeRange =
  startMin :: jsnum
  endMin :: jsnum

text \<open>\<open>/^(\d{3,4})-(\d{3,4})$/\<close>, without the anchors.\<close>

definition formatA :: re where
  "formatA = Seq (Grp 1 (Rep 3 4 Digit)) (Seq (Lit ''-'') (Grp 2 (Rep 3 4 Digit)))"

text \<open>
  \<open>/^(\d{1,2})(:?(\d{2}))?(am|pm)?-(\d{1,2})(:?(\d{2}))?(am|pm)?$/\<close>, without the
  anchors. It has eight capturing groups: \<open>(:?(\d{2}))\<close> is a capturing group that
  holds an optional colon and a nested capturing group.
\<close>

definition formatB :: re where
  "formatB =
     Seq (Grp 1 (Rep 1 2 Digit))
    (Seq (Rep 0 1 (Grp 2 (Seq (Rep 0 1 (Lit '':'')) (Grp 3 (Rep 2 2 Digit)))))
    (Seq (Rep 0 1 (Grp 4 (Alt (Lit ''am'') (Lit ''pm''))))
    (Seq (Lit ''-'')
    (Seq (Grp 5 (Rep 1 2 Digit))
    (Seq (Rep 0 1 (Grp 6 (Seq (Rep 0 1 (Lit '':'')) (Grp 7 (Rep 2 2 Digit)))))
         (Rep 0 1 (Grp 8 (Alt (Lit ''am'') (Lit ''pm'')))))))))"

definition strTruthy :: "string option \<Rightarrow> bool" where
  "strTruthy v = (case v of None \<Rightarrow> False | Some s \<Rightarrow> s \<noteq> [])"

text \<open>The branch taken when the first expression matches; \<open>match\<close> is the match array.\<close>

definition parseTimeRangeA :: "caps \<Rightarrow> exn + timeRange" where
  "parseTimeRangeA match =
     (case padStartM 4 CHR ''0'' (match 1) of Inl e \<Rightarrow> Inl e | Inr startStr \<Rightarrow>
      (case padStartM 4 CHR ''0'' (match 2) of Inl e \<Rightarrow> Inl e | Inr endStr \<Rightarrow>
         (let startHour = parseInt (substring startStr 0 2);
              startMinute = parseInt (substring startStr 2 4);
              endHour = parseInt (substring endStr 0 2);
              endMinute = parseInt (substring endStr 2 4)
          in Inr \<lparr>startMin = numAdd (numMul startHour (Num 60)) startMinute,
                   endMin = numAdd (numMul endHour (Num 60)) endMinute\<rparr>)))"

text \<open>
  The branch taken when the second expression matches. The destructuring
  \<open>let [, h1, m1, ampm1, h2, m2, ampm2] = match\<close> binds the six names to the elements
  1 to 6 of the match array. The variables \<open>startHour\<close> and \<open>endHour\<close> are assigned
  several times; each assignment is a new name here.
\<close>

definition parseTimeRangeB :: "caps \<Rightarrow> timeRange" where
  "parseTimeRangeB match =
     (let h1 = match 1; m1 = match 2; ampm1 = match 3;
          h2 = match 4; m2 = match 5; ampm2 = match 6;
          startHour0 = parseIntV h1;
          startMinute = parseInt (strOr m1 ''0'');
          endHour0 = parseIntV h2;
          endMinute = parseInt (strOr m2 ''0'');
          startHour1 = (if ampm1 = Some ''pm'' \<and> numLt startHour0 (Num 12)
                        then numAdd startHour0 (Num 12) else startHour0);
          startHour2 = (if ampm1 = Some ''am'' \<and> numEq startHour1 (Num 12)
                        then Num 0 else startHour1);
          endHour1 = (if ampm2 = Some ''pm'' \<and> numLt endHour0 (Num 12)
                      then numAdd endHour0 (Num 12) else endHour0);
          endHour2 = (if ampm2 = Some ''am'' \<and> numEq endHour1 (Num 12)
                      then Num 0 else endHour1);
          startHour3 =
            (if strTruthy ampm2 \<and> \<not> strTruthy ampm1 then
               (if numLt endHour2 startHour2
                   \<or> (numEq endHour2 startHour2 \<and> numLt endMinute startMinute)
                then (if numLt startHour2 (Num 12) then numAdd startHour2 (Num 12)
                      else startHour2)
                else startHour2)
             else startHour2)
      in \<lparr>startMin = numAdd (numMul startHour3 (Num 60)) startMinute,
          endMin = numAdd (numMul endHour2 (Num 60)) endMinute\<rparr>)"

text \<open>\<open>parseTimeRange\<close>: \<open>None\<close> is the \<open>null\<close> result.\<close>

definition parseTimeRange :: "jsval \<Rightarrow> exn + timeRange option" where
  "parseTimeRange str =
     (case str of
        JStr s \<Rightarrow>
          if s = [] \<or> strIncludes (toUpperCase s) ''ANYTIME''
                    \<or> strIncludes (toUpperCase s) ''24 HR''
          then Inr (Some \<lparr>startMin = Num 0, endMin = Num 1440\<rparr>)
          else
            (let cleaned = filter (\<lambda>c. \<not> isSpace c) (toLowerCase s)
             in case reMatchAll formatA cleaned of
                  Some match \<Rightarrow>
                    (case parseTimeRangeA match of Inl e \<Rightarrow> Inl e | Inr w \<Rightarrow> Inr (Some w))
                | None \<Rightarrow>
                    (case reMatchAll formatB cleaned of
                       Some match \<Rightarrow> Inr (Some (parseTimeRangeB match))
                     | None \<Rightarrow> Inr None))
      | _ \<Rightarrow> Inr (Some \<lparr>startMin = Num 0, endMin = Num 1440\<rparr>))"

section \<open>The evaluators\<close>

text \<open>
  The properties of a feature that the evaluators read, and what they read of a valid
  \<open>Date\<close>: the local day of the week (0 is Sunday), hour and minute.
\<close>

record props =
  days :: jsval
  hours :: jsval
  hrlimit :: jsval
  regulation :: jsval

record date =
  getDay :: nat
  getHours :: nat
  getMinutes :: nat

definition validDate :: "date \<Rightarrow> bool" where
  "validDate d = (getDay d < 7 \<and> getHours d < 24 \<and> getMinutes d < 60)"

text \<open>\<open>d.getHours() * 60 + d.getMinutes()\<close>.\<close>

definition minuteOfDay :: "date \<Rightarrow> jsnum" where
  "minuteOfDay d = numAdd (numMul (Num (of_nat (getHours d))) (Num 60)) (Num (of_nat (getMinutes d)))"

text \<open>
  \<open>isActiveAt\<close>. In \<open>(dayOfWeek - 1 + 7) % 7\<close> the left operand is at least 6, where
  \<open>%\<close> is \<open>mod\<close>.
\<close>

definition isActiveAt :: "props \<Rightarrow> date \<Rightarrow> exn + bool" where
  "isActiveAt p d =
     (case parseDays (days p) of Inl e \<Rightarrow> Inl e | Inr activeDays \<Rightarrow>
      (case parseTimeRange (hours p) of Inl e \<Rightarrow> Inl e | Inr timeRange \<Rightarrow>
         (let dayOfWeek = int (getDay d);
              nowMinutes = minuteOfDay d
          in Inr
            (case (activeDays, timeRange) of
               (None, None) \<Rightarrow> True
             | (None, Some tr) \<Rightarrow>
                 if numLe (endMin tr) (startMin tr)
                 then numGe nowMinutes (startMin tr) \<or> numLt nowMinutes (endMin tr)
                 else numGe nowMinutes (startMin tr) \<and> numLt nowMinutes (endMin tr)
             | (Some ad, None) \<Rightarrow> setHas ad dayOfWeek
             | (Some ad, Some tr) \<Rightarrow>
                 (let yesterday = (dayOfWeek - 1 + 7) mod 7
                  in if numLe (endMin tr) (startMin tr) then
                       (if setHas ad yesterday \<and> numLt nowMinutes (endMin tr) then True
                        else if setHas ad dayOfWeek \<and> numGe nowMinutes (startMin tr) then True
                        else False)
                     else setHas ad dayOfWeek \<and> numGe nowMinutes (startMin tr)
                          \<and> numLt nowMinutes (endMin tr))))))"

definition intersectsRange :: "props \<Rightarrow> date \<Rightarrow> date \<Rightarrow> exn + bool" where
  "intersectsRange p start finish =
     (case parseDays (days p) of Inl e \<Rightarrow> Inl e | Inr activeDays \<Rightarrow>
      (case parseTimeRange (hours p) of Inl e \<Rightarrow> Inl e | Inr regTime \<Rightarrow>
         (let dayOfWeek = int (getDay start)
          in if (case activeDays of None \<Rightarrow> False | Some ad \<Rightarrow> \<not> setHas ad dayOfWeek)
             then Inr False
             else
               (case regTime of
                  None \<Rightarrow> Inr True
                | Some rt \<Rightarrow>
                    (let userStartMin = minuteOfDay start;
                         userEndMin = minuteOfDay finish
                     in if numLe (endMin rt) (startMin rt) then
                          (let overlaps1 = numLt (mathMax (startMin rt) userStartMin)
                                                 (mathMin (Num 1440) userEndMin);
                               overlaps2 = numLt (mathMax (Num 0) userStartMin)
                                                 (mathMin (endMin rt) userEndMin)
                           in Inr (overlaps1 \<or> overlaps2))
                        else Inr (numLt (mathMax (startMin rt) userStartMin)
                                        (mathMin (endMin rt) userEndMin)))))))"

subsection \<open>Coverage\<close>

text \<open>\<open>/no\s*parking|tow-?away/\<close>.\<close>

definition noParkingRe :: re where
  "noParkingRe =
     Alt (Seq (Lit ''no'') (Seq (Star Space) (Lit ''parking'')))
         (Seq (Lit ''tow'') (Seq (Rep 0 1 (Lit ''-'')) (Lit ''away'')))"

text \<open>\<open>/(\d+)/\<close>; \<open>\d+\<close> is \<open>\d\d*\<close>.\<close>

definition digitsRe :: re where
  "digitsRe = Grp 1 (Seq Digit (Star Digit))"

text \<open>
  \<open>v.toLowerCase()\<close> on a property value: a number has no such method and
  \<open>undefined\<close> and \<open>null\<close> have no properties, so the call throws a \<open>TypeError\<close> on
  everything but a string.
\<close>

definition toLowerCaseM :: "jsval \<Rightarrow> exn + string" where
  "toLowerCaseM v = (case v of JStr s \<Rightarrow> Inr (toLowerCase s) | _ \<Rightarrow> Inl TypeError)"

text \<open>
  The minutes of the user's range that fall in the regulation's hours (the variable
  \<open>overlapMinutes\<close>, which starts at 0).
\<close>

definition overlapMinutes :: "timeRange option \<Rightarrow> jsnum \<Rightarrow> jsnum \<Rightarrow> jsnum \<Rightarrow> jsnum" where
  "overlapMinutes regTime userStartMin userEndMin userDurationMin =
     (case regTime of
        None \<Rightarrow> userDurationMin
      | Some rt \<Rightarrow>
          if numEq (startMin rt) (Num 0) \<and> numEq (endMin rt) (Num 1440) then userDurationMin
          else if numLe (endMin rt) (startMin rt) then
            (let overlap1Start = mathMax (startMin rt) userStartMin;
                 overlap1End = mathMin (Num 1440) userEndMin;
                 acc1 = (if numLt overlap1Start overlap1End
                         then numAdd (Num 0) (numSub overlap1End overlap1Start) else Num 0);
                 overlap2Start = mathMax (Num 0) userStartMin;
                 overlap2End = mathMin (endMin rt) userEndMin
             in if numLt overlap2Start overlap2End
                then numAdd acc1 (numSub overlap2End overlap2Start) else acc1)
          else
            (let overlapStart = mathMax (startMin rt) userStartMin;
                 overlapEnd = mathMin (endMin rt) userEndMin
             in if numLt overlapStart overlapEnd then numSub overlapEnd overlapStart
                else Num 0))"

text \<open>
  The variable \<open>timeLimitMinutes\<close>, from \<open>timeLimit = props.hrlimit || props.hours\<close>;
  \<open>None\<close> is its initial \<open>null\<close>.
\<close>

definition timeLimitMinutes :: "jsval \<Rightarrow> jsnum option" where
  "timeLimitMinutes timeLimit =
     (case timeLimit of
        JStr s \<Rightarrow>
          if s \<noteq> [] then
            (case reSearch digitsRe s of
               Some limitMatch \<Rightarrow> Some (numMul (parseIntV (limitMatch 1)) (Num 60))
             | None \<Rightarrow> None)
          else None
      | JNum n \<Rightarrow> Some (numMul n (Num 60))
      | _ \<Rightarrow> None)"

definition calculateCoverage :: "props \<Rightarrow> date \<Rightarrow> date \<Rightarrow> exn + jsnum" where
  "calculateCoverage p start finish =
     (case parseDays (days p) of Inl e \<Rightarrow> Inl e | Inr activeDays \<Rightarrow>
      (case parseTimeRange (hours p) of Inl e \<Rightarrow> Inl e | Inr regTime \<Rightarrow>
       (case toLowerCaseM (jsOr (regulation p) (JStr [])) of Inl e \<Rightarrow> Inl e | Inr regulationText \<Rightarrow>
         (let dayOfWeek = int (getDay start);
              userStartMin = minuteOfDay start;
              userEndMin = minuteOfDay finish;
              userDurationMin = numSub userEndMin userStartMin
          in if numLe userDurationMin (Num 0) then Inr (Num 0)
             else
               (let regulationAppliesToday =
                      (case activeDays of None \<Rightarrow> True | Some ad \<Rightarrow> setHas ad dayOfWeek)
                in if \<not> regulationAppliesToday then Inr (Num 1)
                   else
                     (let isNoParking = reTest noParkingRe regulationText;
                          overlap = overlapMinutes regTime userStartMin userEndMin userDurationMin
                      in if numEq overlap (Num 0) then Inr (Num 1)
                         else if isNoParking then
                           Inr (numDiv (numSub userDurationMin overlap) userDurationMin)
                         else
                           (let timeLimit = jsOr (hrlimit p) (hours p);
                                limit = timeLimitMinutes timeLimit
                            in case limit of
                                 Some tlm \<Rightarrow>
                                   if truthy (JNum tlm) \<and> numGt overlap (Num 0) then
                                     (let allowedMinutes = mathMin tlm overlap;
                                          freeMinutes = numAdd (numSub userDurationMin overlap)
                                                               allowedMinutes
                                      in Inr (mathMin (Num 1) (numDiv freeMinutes userDurationMin)))
                                   else Inr (numDiv (numSub userDurationMin overlap) userDurationMin)
                               | None \<Rightarrow>
                                   Inr (numDiv (numSub userDurationMin overlap) userDurationMin))))))))"

text \<open>Shorthand for writing records, dates and windows.\<close>

abbreviation mkProps :: "jsval \<Rightarrow> jsval \<Rightarrow> jsval \<Rightarrow> jsval \<Rightarrow> props" where
  "mkProps d h l r \<equiv> \<lparr>days = d, hours = h, hrlimit = l, regulation = r\<rparr>"

abbreviation mkDate :: "nat \<Rightarrow> nat \<Rightarrow> nat \<Rightarrow> date" where
  "mkDate wd h m \<equiv> \<lparr>getDay = wd, getHours = h, getMinutes = m\<rparr>"

abbreviation mkRange :: "rat \<Rightarrow> rat \<Rightarrow> timeRange" where
  "mkRange a b \<equiv> \<lparr>startMin = Num a, endMin = Num b\<rparr>"

section \<open>Notions used to state and prove the results\<close>


text \<open>
  The overlap in the words of the specification: the minutes of the query interval that
  fall inside the regulation's time window. A minute is inside a window as for the
  point-in-time evaluation: when the end is not after the start (an overnight window), at
  or after the start or before the end; otherwise at or after the start and before the
  end. Every comparison with \<open>NaN\<close> is false, so no minute is inside a window with a
  \<open>NaN\<close> end. Without a window every minute counts. The query interval \<open>[us, ue)\<close>
  holds the minutes \<open>us\<close>, ..., \<open>ue - 1\<close>.
\<close>

definition specInWindow :: "timeRange option \<Rightarrow> int \<Rightarrow> bool" where
  "specInWindow regTime m =
     (case regTime of
        None \<Rightarrow> True
      | Some w \<Rightarrow>
          if numLe (endMin w) (startMin w)
          then numLe (startMin w) (Num (of_int m)) \<or> numLt (Num (of_int m)) (endMin w)
          else numLe (startMin w) (Num (of_int m)) \<and> numLt (Num (of_int m)) (endMin w))"


text \<open>The minute of the day of a date, as an integer.\<close>

definition minutesOf :: "date \<Rightarrow> int" where
  "minutesOf d = int (getHours d) * 60 + int (getMinutes d)"


text \<open>A day set that holds weekday indices only.\<close>

definition daysOk :: "daySet \<Rightarrow> bool" where
  "daysOk ds = (\<forall>d\<in>set ds. 0 \<le> d \<and> d \<le> 6)"

text \<open>
  The capturing groups of an expression, and the characters its matches are made of.
\<close>

primrec groups :: "re \<Rightarrow> nat set" where
  "groups (Lit w) = {}"
| "groups Digit = {}"
| "groups Space = {}"
| "groups (Seq a b) = groups a \<union> groups b"
| "groups (Alt a b) = groups a \<union> groups b"
| "groups (Rep lo hi a) = groups a"
| "groups (Star a) = groups a"
| "groups (Grp i a) = insert i (groups a)"

primrec alphabet :: "re \<Rightarrow> char set" where
  "alphabet (Lit w) = set w"
| "alphabet Digit = {c. isDigit c}"
| "alphabet Space = {c. isSpace c}"
| "alphabet (Seq a b) = alphabet a \<union> alphabet b"
| "alphabet (Alt a b) = alphabet a \<union> alphabet b"
| "alphabet (Rep lo hi a) = alphabet a"
| "alphabet (Star a) = alphabet a"
| "alphabet (Grp i a) = alphabet a"

section \<open>The parsers on the calibration inputs\<close>

lemma parseDays_M_F: "parseDays (JStr ''M-F'') = Inr (Some [1, 2, 3, 4, 5])"
  by code_simp

lemma parseDays_SA_SU: "parseDays (JStr ''SA,SU'') = Inr (Some [6, 0])"
  by code_simp

lemma parseDays_empty: "parseDays (JStr []) = Inr None"
  by (simp add: parseDays_def)

lemma parseDays_null: "parseDays JNull = Inr None"
  by (simp add: parseDays_def)

lemma parseDays_undefined: "parseDays JUndefined = Inr None"
  by (simp add: parseDays_def)

lemma parseTimeRange_0900_1800:
  "parseTimeRange (JStr ''0900-1800'') = Inr (Some \<lparr>startMin = Num 540, endMin = Num 1080\<rparr>)"
  by code_simp

lemma parseTimeRange_ANYTIME:
  "parseTimeRange (JStr ''ANYTIME'') = Inr (Some \<lparr>startMin = Num 0, endMin = Num 1440\<rparr>)"
  by code_simp

lemma parseTimeRange_garbage: "parseTimeRange (JStr ''garbage'') = Inr None"
  by code_simp

lemma parseTimeRange_undefined:
  "parseTimeRange JUndefined = Inr (Some \<lparr>startMin = Num 0, endMin = Num 1440\<rparr>)"
  by (simp add: parseTimeRange_def)

lemma parseTimeRange_8am_6pm:
  "parseTimeRange (JStr ''8am-6pm'') = Inr (Some \<lparr>startMin = Num 480, endMin = NaN\<rparr>)"
  by code_simp

text \<open>
  Claim C2. The calibration examples of the parsers: \<open>parseDays("M-F")\<close> is the set
  \<open>{1,2,3,4,5}\<close>, \<open>parseDays("SA,SU")\<close> is \<open>{6,0}\<close>, \<open>parseDays("")\<close> and
  \<open>parseDays(null)\<close> are \<open>null\<close> (unrestricted); \<open>parseTimeRange("0900-1800")\<close> is
  \<open>(540, 1080)\<close>, \<open>parseTimeRange("ANYTIME")\<close> is the all-day window \<open>(0, 1440)\<close> and
  \<open>parseTimeRange("garbage")\<close> is \<open>null\<close> (unparseable).
\<close>

theorem parser_calibration_examples:
  "parseDays (JStr ''M-F'') = Inr (Some [1, 2, 3, 4, 5])
   \<and> parseDays (JStr ''SA,SU'') = Inr (Some [6, 0])
   \<and> parseDays (JStr []) = Inr None
   \<and> parseDays JNull = Inr None
   \<and> parseTimeRange (JStr ''0900-1800'') = Inr (Some \<lparr>startMin = Num 540, endMin = Num 1080\<rparr>)
   \<and> parseTimeRange (JStr ''ANYTIME'') = Inr (Some \<lparr>startMin = Num 0, endMin = Num 1440\<rparr>)
   \<and> parseTimeRange (JStr ''garbage'') = Inr None"
  using parseDays_M_F parseDays_SA_SU parseDays_empty parseDays_null
    parseTimeRange_0900_1800 parseTimeRange_ANYTIME parseTimeRange_garbage
  by blast

text \<open>
  Claim C1. On \<open>"8am-6pm"\<close> the claim expects the window \<open>(480, 1080)\<close>. The code
  returns a window whose start is 480 and whose end is \<open>NaN\<close>: the end hour is read from
  element 4 of the match array, which holds the text \<open>am\<close>.
\<close>

theorem parseTimeRange_8am_6pm_end_is_NaN:
  "parseTimeRange (JStr ''8am-6pm'') = Inr (Some \<lparr>startMin = Num 480, endMin = NaN\<rparr>)
   \<and> parseTimeRange (JStr ''8am-6pm'') \<noteq> Inr (Some \<lparr>startMin = Num 480, endMin = Num 1080\<rparr>)"
  using parseTimeRange_8am_6pm by simp

section \<open>The day parser never fails and never returns an empty set\<close>

lemma splitOn_nonempty: "splitOn c s \<noteq> []"
  by (induction s) (auto split: list.splits)

lemma splitOn_two: "c \<in> set s \<Longrightarrow> 2 \<le> length (splitOn c s)"
proof (induction s)
  case Nil
  then show ?case by simp
next
  case (Cons x xs)
  show ?case
  proof (cases "x = c")
    case True
    then show ?thesis using splitOn_nonempty[of c xs] by (cases "splitOn c xs") auto
  next
    case False
    with Cons have "2 \<le> length (splitOn c xs)" by simp
    then show ?thesis using False by (cases "splitOn c xs") auto
  qed
qed

lemma DAY_MAP_range: "DAY_MAP k = Some d \<Longrightarrow> 0 \<le> d \<and> d \<le> 6"
  by (auto simp: DAY_MAP_def split: if_splits)

lemma setAdd_ok: "daysOk ds \<Longrightarrow> 0 \<le> d \<Longrightarrow> d \<le> 6 \<Longrightarrow> daysOk (setAdd d ds)"
  by (auto simp: daysOk_def setAdd_def)

lemma fold_setAdd_ok:
  "daysOk ds \<Longrightarrow> \<forall>d\<in>set xs. 0 \<le> d \<and> d \<le> 6 \<Longrightarrow> daysOk (fold setAdd xs ds)"
  by (induction xs arbitrary: ds) (auto intro: setAdd_ok)

lemma partDays_total:
  "\<exists>ds'. partDays part ds = Inr ds' \<and> (daysOk ds \<longrightarrow> daysOk ds')"
proof (cases "CHR ''-'' \<in> set part")
  case True
  from splitOn_two[OF True] obtain a b rest where sp: "splitOn CHR ''-'' part = a # b # rest"
    by (cases "splitOn CHR ''-'' part"; cases "tl (splitOn CHR ''-'' part)") auto
  show ?thesis
  proof (cases "DAY_MAP (trim a)")
    case None
    then show ?thesis using True sp by (simp add: partDays_def nthOpt_def trimM_def)
  next
    case (Some i)
    show ?thesis
    proof (cases "DAY_MAP (trim b)")
      case None
      then show ?thesis using True sp Some by (simp add: partDays_def nthOpt_def trimM_def)
    next
      case j: (Some j)
      have "\<forall>d\<in>set [i..j]. 0 \<le> d \<and> d \<le> 6"
        using DAY_MAP_range[OF Some] DAY_MAP_range[OF j] by auto
      then have "daysOk ds \<longrightarrow> daysOk (fold setAdd [i..j] ds)"
        using fold_setAdd_ok by blast
      then show ?thesis using True sp Some j by (simp add: partDays_def nthOpt_def trimM_def)
    qed
  qed
next
  case False
  show ?thesis
  proof (cases "DAY_MAP (trim part)")
    case None
    then show ?thesis using False by (simp add: partDays_def)
  next
    case (Some d)
    then show ?thesis using False DAY_MAP_range[OF Some] by (auto simp: partDays_def intro: setAdd_ok)
  qed
qed

lemma forParts_total:
  "\<exists>ds'. forParts parts ds = Inr ds' \<and> (daysOk ds \<longrightarrow> daysOk ds')"
proof (induction parts arbitrary: ds)
  case Nil
  then show ?case by simp
next
  case (Cons part parts)
  from partDays_total[of part ds] obtain d1 where
    1: "partDays part ds = Inr d1" and 2: "daysOk ds \<longrightarrow> daysOk d1" by blast
  from Cons[of d1] obtain d2 where
    3: "forParts parts d1 = Inr d2" and 4: "daysOk d1 \<longrightarrow> daysOk d2" by blast
  show ?case using 1 2 3 4 by simp
qed

lemma forParts_nothing:
  "\<forall>part\<in>set parts. partDays part ds = Inr ds \<Longrightarrow> forParts parts ds = Inr ds"
  by (induction parts) auto

lemma parseDays_result:
  "parseDays v = Inr None \<or> (\<exists>ds. parseDays v = Inr (Some ds) \<and> ds \<noteq> [] \<and> daysOk ds)"
proof (cases v)
  case (JStr s)
  show ?thesis
  proof (cases "s = []")
    case True
    then show ?thesis using JStr by (simp add: parseDays_def)
  next
    case False
    from forParts_total[of "splitSeps (toUpperCase s)" "[]"] obtain ds where
      "forParts (splitSeps (toUpperCase s)) [] = Inr ds" and "daysOk ds"
      by (auto simp: daysOk_def)
    then show ?thesis using JStr False by (cases ds) (auto simp: parseDays_def)
  qed
qed (simp_all add: parseDays_def)

lemma key_plain: "DAY_MAP a = Some i \<Longrightarrow> CHR ''-'' \<notin> set a \<and> (\<forall>c\<in>set a. \<not> isSpace c)"
  by (auto simp: DAY_MAP_def isSpace_def split: if_splits)

lemma splitOn_single: "c \<notin> set s \<Longrightarrow> splitOn c s = [s]"
  by (induction s) auto

lemma splitOn_append: "c \<notin> set a \<Longrightarrow> splitOn c (a @ c # b) = a # splitOn c b"
  by (induction a) auto

lemma trim_plain: "\<forall>c\<in>set a. \<not> isSpace c \<Longrightarrow> trim a = a"
proof -
  assume h: "\<forall>c\<in>set a. \<not> isSpace c"
  then have 1: "dropWhile isSpace a = a" by (cases a) auto
  from h have "\<forall>c\<in>set (rev a). \<not> isSpace c" by simp
  then have 2: "dropWhile isSpace (rev a) = rev a" by (cases "rev a") auto
  show ?thesis unfolding trim_def 1 2 by simp
qed

lemma partDays_reversed:
  assumes a: "DAY_MAP a = Some i" and b: "DAY_MAP b = Some j" and lt: "j < i"
  shows "partDays (a @ ''-'' @ b) ds = Inr ds"
proof -
  from key_plain[OF a] have a1: "CHR ''-'' \<notin> set a" and a2: "trim a = a" by (auto intro: trim_plain)
  from key_plain[OF b] have b1: "CHR ''-'' \<notin> set b" and b2: "trim b = b" by (auto intro: trim_plain)
  have sp: "splitOn CHR ''-'' (a @ CHR ''-'' # b) = [a, b]"
    using splitOn_append[OF a1, of b] splitOn_single[OF b1] by simp
  have "[i..j] = []" using lt by simp
  then show ?thesis
    by (simp add: partDays_def sp nthOpt_def trimM_def a2 b2 a b Let_def)
qed


lemma parseDays_FR_MO: "parseDays (JStr ''FR-MO'') = Inr None"
  by code_simp

lemma parseDays_only_nothing: "parseDays (JStr ''fr-mo, xyz;SA-M'') = Inr None"
  by code_simp

lemma DAY_MAP_FR: "DAY_MAP ''FR'' = Some 5"
  by (simp add: DAY_MAP_def)

lemma DAY_MAP_MO: "DAY_MAP ''MO'' = Some 1"
  by (simp add: DAY_MAP_def)

lemma splitSeps_example: "splitSeps (toUpperCase ''fr-mo xx'') = [''FR-MO'', ''XX'']"
  by code_simp

lemma partDays_FR_MO: "partDays ''FR-MO'' [] = Inr []"
  by code_simp

lemma partDays_XX: "partDays ''XX'' [] = Inr []"
  by code_simp

text \<open>
  Claim C8. \<open>parseDays\<close> never returns an empty set: for every input the result is
  \<open>null\<close> (unrestricted) or a non-empty set of weekday indices 0 to 6. A range whose
  start index is above its end index, such as \<open>"FR-MO"\<close>, adds no day, and an input
  whose parts all add nothing (such ranges, unrecognized tokens) gives \<open>null\<close>.
\<close>

theorem parseDays_never_empty:
  "(parseDays v = Inr None
      \<or> (\<exists>ds. parseDays v = Inr (Some ds) \<and> ds \<noteq> [] \<and> (\<forall>d\<in>set ds. 0 \<le> d \<and> d \<le> 6)))
   \<and> (DAY_MAP a = Some i \<and> DAY_MAP b = Some j \<and> j < i \<longrightarrow>
        partDays (a @ ''-'' @ b) ds0 = Inr ds0)
   \<and> ((\<forall>part\<in>set (splitSeps (toUpperCase s)). partDays part [] = Inr []) \<longrightarrow>
        parseDays (JStr s) = Inr None)
   \<and> parseDays (JStr ''FR-MO'') = Inr None
   \<and> parseDays (JStr ''fr-mo, xyz;SA-M'') = Inr None"
proof (intro conjI impI)
  show "parseDays v = Inr None
      \<or> (\<exists>ds. parseDays v = Inr (Some ds) \<and> ds \<noteq> [] \<and> (\<forall>d\<in>set ds. 0 \<le> d \<and> d \<le> 6))"
    using parseDays_result[of v] unfolding daysOk_def .
next
  assume "DAY_MAP a = Some i \<and> DAY_MAP b = Some j \<and> j < i"
  then show "partDays (a @ ''-'' @ b) ds0 = Inr ds0"
    using partDays_reversed by blast
next
  assume "\<forall>part\<in>set (splitSeps (toUpperCase s)). partDays part [] = Inr []"
  then have "forParts (splitSeps (toUpperCase s)) [] = Inr []"
    by (rule forParts_nothing)
  then show "parseDays (JStr s) = Inr None"
    by (simp add: parseDays_def)
next
  show "parseDays (JStr ''FR-MO'') = Inr None" by (rule parseDays_FR_MO)
next
  show "parseDays (JStr ''fr-mo, xyz;SA-M'') = Inr None" by (rule parseDays_only_nothing)
qed

text \<open>
  The theorem at \<open>"M-F"\<close>, at the range from \<open>FR\<close> to \<open>MO\<close>, and at the input
  \<open>"fr-mo xx"\<close>.
\<close>

theorem parseDays_never_empty_witness:
  "parseDays (JStr ''M-F'') = Inr (Some [1, 2, 3, 4, 5])
   \<and> DAY_MAP ''FR'' = Some 5 \<and> DAY_MAP ''MO'' = Some 1 \<and> (1::int) < 5
   \<and> partDays (''FR'' @ ''-'' @ ''MO'') [3] = Inr [3]
   \<and> splitSeps (toUpperCase ''fr-mo xx'') = [''FR-MO'', ''XX'']
   \<and> partDays ''FR-MO'' [] = Inr [] \<and> partDays ''XX'' [] = Inr []
   \<and> parseDays (JStr ''fr-mo xx'') = Inr None"
  using parseDays_never_empty[of "JStr ''M-F''" "''FR''" 5 "''MO''" 1 "[3]" "''fr-mo xx''"]
  by (simp add: parseDays_M_F DAY_MAP_FR DAY_MAP_MO splitSeps_example partDays_FR_MO partDays_XX)

section \<open>Facts about the matcher\<close>

lemma rm_Lit_iff:
  "(cs', m, r) \<in> set (rm (Lit w) cs s) \<longleftrightarrow> cs' = cs \<and> m = w \<and> s = w @ r"
  by (auto simp: prefix_def)

lemma rm_Digit_iff:
  "(cs', m, r) \<in> set (rm Digit cs s) \<longleftrightarrow> (\<exists>x. isDigit x \<and> s = x # r \<and> m = [x] \<and> cs' = cs)"
  by (auto split: list.splits)

lemma rm_Seq_iff:
  "(cs', m, r) \<in> set (rm (Seq a b) cs s) \<longleftrightarrow>
     (\<exists>cs1 m1 r1 m2. (cs1, m1, r1) \<in> set (rm a cs s) \<and> (cs', m2, r) \<in> set (rm b cs1 r1)
                      \<and> m = m1 @ m2)"
  by force

lemma rm_Alt_iff:
  "(cs', m, r) \<in> set (rm (Alt a b) cs s) \<longleftrightarrow>
     (cs', m, r) \<in> set (rm a cs s) \<or> (cs', m, r) \<in> set (rm b cs s)"
  by simp

lemma rm_Grp_iff:
  "(cs', m, r) \<in> set (rm (Grp i a) cs s) \<longleftrightarrow>
     (\<exists>cs1. (cs1, m, r) \<in> set (rm a cs s) \<and> cs' = cs1(i := Some m))"
  by force

lemma rmRep_0_iff:
  "(cs', m, r) \<in> set (rmRep f lo 0 cs s) \<longleftrightarrow> lo = 0 \<and> cs' = cs \<and> m = [] \<and> r = s"
  by auto

lemma rmRep_Suc_iff:
  "(cs', m, r) \<in> set (rmRep f lo (Suc k) cs s) \<longleftrightarrow>
     (\<exists>cs1 m1 r1 m2. (cs1, m1, r1) \<in> set (f cs s)
                      \<and> (cs', m2, r) \<in> set (rmRep f (lo - 1) k cs1 r1) \<and> m = m1 @ m2)
     \<or> (lo = 0 \<and> cs' = cs \<and> m = [] \<and> r = s)"
  by force

lemma rm_Opt_iff:
  "(cs', m, r) \<in> set (rm (Rep 0 1 a) cs s) \<longleftrightarrow>
     (cs', m, r) \<in> set (rm a cs s) \<or> (cs' = cs \<and> m = [] \<and> r = s)"
  by (auto simp: rmRep_Suc_iff rmRep_0_iff)

text \<open>A run of digits.\<close>

lemma rmRep_Digit:
  "(cs', m, r) \<in> set (rmRep (rm Digit) lo hi cs s) \<Longrightarrow>
     cs' = cs \<and> s = m @ r \<and> (\<forall>c\<in>set m. isDigit c) \<and> lo \<le> length m \<and> length m \<le> hi"
proof (induction hi arbitrary: lo cs s m)
  case 0
  then show ?case by (simp add: rmRep_0_iff)
next
  case (Suc k)
  from Suc.prems consider
    (step) cs1 m1 r1 m2 where "(cs1, m1, r1) \<in> set (rm Digit cs s)"
      "(cs', m2, r) \<in> set (rmRep (rm Digit) (lo - 1) k cs1 r1)" "m = m1 @ m2"
  | (stop) "lo = 0" "cs' = cs" "m = []" "r = s"
    unfolding rmRep_Suc_iff by blast
  then show ?case
  proof cases
    case step
    from step(1) obtain x where x: "isDigit x" "s = x # r1" "m1 = [x]" "cs1 = cs"
      unfolding rm_Digit_iff by blast
    from Suc.IH[OF step(2)] x step(3) show ?thesis by auto
  next
    case stop
    then show ?thesis by simp
  qed
qed

lemma rm_frame:
  "(cs', m, r) \<in> set (rm e cs s) \<Longrightarrow> i \<notin> groups e \<Longrightarrow> cs' i = cs i"
proof (induction e arbitrary: cs s cs' m r)
  case (Lit w)
  then show ?case by (simp add: rm_Lit_iff)
next
  case Digit
  then show ?case by (auto simp: rm_Digit_iff)
next
  case Space
  then show ?case by (auto split: list.splits if_splits)
next
  case (Seq a b)
  from Seq.prems(1) obtain cs1 m1 r1 m2 where
    1: "(cs1, m1, r1) \<in> set (rm a cs s)" and 2: "(cs', m2, r) \<in> set (rm b cs1 r1)"
    unfolding rm_Seq_iff by blast
  from Seq.prems(2) have "i \<notin> groups a" "i \<notin> groups b" by simp_all
  with Seq.IH(1)[OF 1] Seq.IH(2)[OF 2] show ?case by simp
next
  case (Alt a b)
  from Alt.prems(2) have "i \<notin> groups a" "i \<notin> groups b" by simp_all
  with Alt.prems(1) Alt.IH show ?case unfolding rm_Alt_iff by blast
next
  case (Rep lo hi a)
  from Rep.prems(2) have ng: "i \<notin> groups a" by simp
  have "(cs', m, r) \<in> set (rmRep (rm a) lo hi cs s) \<Longrightarrow> cs' i = cs i" for lo cs s m
  proof (induction hi arbitrary: lo cs s m)
    case 0
    then show ?case by (simp add: rmRep_0_iff)
  next
    case (Suc k)
    from Suc.prems consider
      (step) cs1 m1 r1 m2 where "(cs1, m1, r1) \<in> set (rm a cs s)"
        "(cs', m2, r) \<in> set (rmRep (rm a) (lo - 1) k cs1 r1)"
    | (stop) "cs' = cs"
      unfolding rmRep_Suc_iff by blast
    then show ?case
    proof cases
      case step
      from Rep.IH[OF step(1) ng] Suc.IH[OF step(2)] show ?thesis by simp
    next
      case stop
      then show ?thesis by simp
    qed
  qed
  with Rep.prems(1) show ?case by simp
next
  case (Star a)
  from Star.prems(2) have ng: "i \<notin> groups a" by simp
  have "(cs', m, r) \<in> set (rmRep (rm a) lo hi cs s) \<Longrightarrow> cs' i = cs i" for lo hi cs s m
  proof (induction hi arbitrary: lo cs s m)
    case 0
    then show ?case by (simp add: rmRep_0_iff)
  next
    case (Suc k)
    from Suc.prems consider
      (step) cs1 m1 r1 m2 where "(cs1, m1, r1) \<in> set (rm a cs s)"
        "(cs', m2, r) \<in> set (rmRep (rm a) (lo - 1) k cs1 r1)"
    | (stop) "cs' = cs"
      unfolding rmRep_Suc_iff by blast
    then show ?case
    proof cases
      case step
      from Star.IH[OF step(1) ng] Suc.IH[OF step(2)] show ?thesis by simp
    next
      case stop
      then show ?thesis by simp
    qed
  qed
  with Star.prems(1) show ?case by simp
next
  case (Grp j a)
  from Grp.prems(1) obtain cs1 where 1: "(cs1, m, r) \<in> set (rm a cs s)" and 2: "cs' = cs1(j := Some m)"
    unfolding rm_Grp_iff by blast
  from Grp.prems(2) have "i \<noteq> j" "i \<notin> groups a" by simp_all
  with Grp.IH[OF 1] 2 show ?case by simp
qed


lemma reMatchAll_Some:
  assumes "reMatchAll e s = Some match"
  shows "\<exists>cs m. (cs, m, []) \<in> set (rm e noCaps s) \<and> match = cs(0 := Some m)"
proof -
  from assms obtain cs m rest where
    f: "List.find (\<lambda>(cs, m, rest). rest = []) (rm e noCaps s) = Some (cs, m, rest)"
    and mt: "match = cs(0 := Some m)"
    by (auto simp: reMatchAll_def split: option.splits)
  from f have "rest = []" and "(cs, m, rest) \<in> set (rm e noCaps s)"
    by (auto simp: find_Some_iff in_set_conv_nth)
  with mt show ?thesis by blast
qed

lemma formatA_groups:
  assumes "reMatchAll formatA s = Some match"
  shows "\<exists>d1 d2. match 1 = Some d1 \<and> match 2 = Some d2
           \<and> (\<forall>c\<in>set d1. isDigit c) \<and> 3 \<le> length d1 \<and> length d1 \<le> 4
           \<and> (\<forall>c\<in>set d2. isDigit c) \<and> 3 \<le> length d2 \<and> length d2 \<le> 4"
proof -
  from reMatchAll_Some[OF assms] obtain cs m where
    mem: "(cs, m, []) \<in> set (rm formatA noCaps s)" and mt: "match = cs(0 := Some m)" by blast
  from mem obtain cs1 m1 r1 cs2 m2 r2 cs3 m3 where
    g1: "(cs1, m1, r1) \<in> set (rm (Grp 1 (Rep 3 4 Digit)) noCaps s)"
    and l: "(cs2, m2, r2) \<in> set (rm (Lit ''-'') cs1 r1)"
    and g2: "(cs, m3, []) \<in> set (rm (Grp 2 (Rep 3 4 Digit)) cs2 r2)"
    unfolding formatA_def rm_Seq_iff by blast
  from g1 obtain c1 where d1: "(c1, m1, r1) \<in> set (rmRep (rm Digit) 3 4 noCaps s)"
    and cs1: "cs1 = c1(1 := Some m1)"
    unfolding rm_Grp_iff by auto
  from l have cs2: "cs2 = cs1" unfolding rm_Lit_iff by simp
  from g2 obtain c2 where d2: "(c2, m3, []) \<in> set (rmRep (rm Digit) 3 4 cs2 r2)"
    and cs: "cs = c2(2 := Some m3)"
    unfolding rm_Grp_iff by auto
  from rmRep_Digit[OF d1] have p1: "(\<forall>c\<in>set m1. isDigit c) \<and> 3 \<le> length m1 \<and> length m1 \<le> 4"
    by simp
  from rmRep_Digit[OF d2] have p2: "(\<forall>c\<in>set m3. isDigit c) \<and> 3 \<le> length m3 \<and> length m3 \<le> 4"
    and c2: "c2 = cs2" by simp_all
  have "match 1 = Some m1" "match 2 = Some m3"
    unfolding mt cs c2 cs2 cs1 by simp_all
  with p1 p2 show ?thesis by blast
qed

lemma formatB_group4:
  assumes "reMatchAll formatB s = Some match"
  shows "match 4 = None \<or> match 4 = Some ''am'' \<or> match 4 = Some ''pm''"
proof -
  let ?g1 = "Grp 1 (Rep 1 2 Digit)"
  let ?g2 = "Rep 0 1 (Grp 2 (Seq (Rep 0 1 (Lit '':'')) (Grp 3 (Rep 2 2 Digit))))"
  let ?g4 = "Rep 0 1 (Grp 4 (Alt (Lit ''am'') (Lit ''pm'')))"
  let ?tail = "Seq (Lit ''-'')
    (Seq (Grp 5 (Rep 1 2 Digit))
    (Seq (Rep 0 1 (Grp 6 (Seq (Rep 0 1 (Lit '':'')) (Grp 7 (Rep 2 2 Digit)))))
         (Rep 0 1 (Grp 8 (Alt (Lit ''am'') (Lit ''pm''))))))"
  from reMatchAll_Some[OF assms] obtain cs m where
    mem: "(cs, m, []) \<in> set (rm formatB noCaps s)" and mt: "match = cs(0 := Some m)" by blast
  from mem obtain cs1 m1 r1 cs2 m2 r2 cs3 m3 r3 m4 where
    a: "(cs1, m1, r1) \<in> set (rm ?g1 noCaps s)"
    and b: "(cs2, m2, r2) \<in> set (rm ?g2 cs1 r1)"
    and c: "(cs3, m3, r3) \<in> set (rm ?g4 cs2 r2)"
    and d: "(cs, m4, []) \<in> set (rm ?tail cs3 r3)"
    unfolding formatB_def rm_Seq_iff[of _ _ _ ?g1] rm_Seq_iff[of _ _ _ ?g2] rm_Seq_iff[of _ _ _ ?g4]
    by blast
  have "cs1 4 = noCaps 4" by (rule rm_frame[OF a]) simp
  moreover have "cs2 4 = cs1 4" by (rule rm_frame[OF b]) simp
  ultimately have n: "cs2 4 = None" by (simp add: noCaps_def)
  from c have "cs3 4 = None \<or> cs3 4 = Some ''am'' \<or> cs3 4 = Some ''pm''"
    unfolding rm_Opt_iff rm_Grp_iff rm_Alt_iff rm_Lit_iff using n by auto
  moreover have "cs 4 = cs3 4" by (rule rm_frame[OF d]) simp
  ultimately show ?thesis unfolding mt by simp
qed


lemma rmRep_consumed:
  assumes f: "\<And>cs s cs' m r. (cs', m, r) \<in> set (f cs s) \<Longrightarrow> s = m @ r \<and> set m \<subseteq> A"
  shows "(cs', m, r) \<in> set (rmRep f lo hi cs s) \<Longrightarrow> s = m @ r \<and> set m \<subseteq> A"
proof (induction hi arbitrary: lo cs s m)
  case 0
  then show ?case by (simp add: rmRep_0_iff)
next
  case (Suc k)
  from Suc.prems consider
    (step) cs1 m1 r1 m2 where "(cs1, m1, r1) \<in> set (f cs s)"
      "(cs', m2, r) \<in> set (rmRep f (lo - 1) k cs1 r1)" "m = m1 @ m2"
  | (stop) "m = []" "r = s"
    unfolding rmRep_Suc_iff by blast
  then show ?case
  proof cases
    case step
    from f[OF step(1)] Suc.IH[OF step(2)] step(3) show ?thesis by auto
  next
    case stop
    then show ?thesis by simp
  qed
qed

lemma rm_consumed:
  "(cs', m, r) \<in> set (rm e cs s) \<Longrightarrow> s = m @ r \<and> set m \<subseteq> alphabet e"
proof (induction e arbitrary: cs s cs' m r)
  case (Lit w)
  then show ?case unfolding rm_Lit_iff by simp
next
  case Digit
  then show ?case unfolding rm_Digit_iff by auto
next
  case Space
  then show ?case by (auto split: list.splits if_splits)
next
  case (Seq a b)
  from Seq.prems obtain cs1 m1 r1 m2 where
    1: "(cs1, m1, r1) \<in> set (rm a cs s)" and 2: "(cs', m2, r) \<in> set (rm b cs1 r1)"
    and 3: "m = m1 @ m2"
    unfolding rm_Seq_iff by blast
  from Seq.IH(1)[OF 1] Seq.IH(2)[OF 2] 3 show ?case by auto
next
  case (Alt a b)
  from Alt.prems consider "(cs', m, r) \<in> set (rm a cs s)" | "(cs', m, r) \<in> set (rm b cs s)"
    unfolding rm_Alt_iff by blast
  then show ?case
  proof cases
    case 1
    from Alt.IH(1)[OF 1] show ?thesis by auto
  next
    case 2
    from Alt.IH(2)[OF 2] show ?thesis by auto
  qed
next
  case (Rep lo hi a)
  from Rep.prems have "(cs', m, r) \<in> set (rmRep (rm a) lo hi cs s)" by simp
  from rmRep_consumed[of "rm a" "alphabet a", OF Rep.IH this] show ?case by simp
next
  case (Star a)
  from Star.prems have "(cs', m, r) \<in> set (rmRep (rm a) 0 (length s) cs s)" by simp
  from rmRep_consumed[of "rm a" "alphabet a", OF Star.IH this] show ?case by simp
next
  case (Grp j a)
  from Grp.prems obtain cs1 where "(cs1, m, r) \<in> set (rm a cs s)"
    unfolding rm_Grp_iff by blast
  from Grp.IH[OF this] show ?case by simp
qed

lemma reMatchAll_alphabet:
  assumes "reMatchAll e s = Some match"
  shows "set s \<subseteq> alphabet e"
proof -
  from reMatchAll_Some[OF assms] obtain cs m where "(cs, m, []) \<in> set (rm e noCaps s)" by blast
  from rm_consumed[OF this] show ?thesis by simp
qed

lemma formatB_alphabet: "alphabet formatB = {c. isDigit c} \<union> set '':amp-''"
  by (auto simp: formatB_def)

lemma formatB_nonempty: "reMatchAll formatB [] = None"
  by code_simp

lemma upper_N: "toUpperChar c = CHR ''N'' \<Longrightarrow> toLowerChar c = CHR ''n''"
  by (auto simp: toUpperChar_def toLowerChar_def split: if_splits)

lemma upper_H: "toUpperChar c = CHR ''H'' \<Longrightarrow> toLowerChar c = CHR ''h''"
  by (auto simp: toUpperChar_def toLowerChar_def split: if_splits)

section \<open>Facts about \<open>parseInt\<close>\<close>

lemma isDigit_not_space: "isDigit c \<Longrightarrow> \<not> isSpace c"
  by (auto simp: isDigit_def isSpace_def)

lemma isDigit_not_sign: "isDigit c \<Longrightarrow> c \<noteq> CHR ''-'' \<and> c \<noteq> CHR ''+''"
  by (auto simp: isDigit_def)

lemma parseInt_digits:
  assumes "ds \<noteq> []" and "\<forall>c\<in>set ds. isDigit c"
  shows "parseInt ds = Num (of_nat (digitsVal ds))"
proof -
  obtain c r where ds: "ds = c # r" using assms(1) by (cases ds) auto
  have c: "isDigit c" using assms(2) ds by simp
  have tw: "takeWhile isDigit ds = ds" using assms(2) by simp
  show ?thesis
    using isDigit_not_space[OF c] isDigit_not_sign[OF c] tw assms(1)
    by (simp add: parseInt_def ds Let_def)
qed

section \<open>The time-range parser on every input\<close>

lemma digitVal_le: "isDigit c \<Longrightarrow> digitVal c \<le> 9"
  by (auto simp: isDigit_def digitVal_def)

lemma isDigit_zero: "isDigit CHR ''0''"
  by (simp add: isDigit_def)

lemma parseInt_two_digits:
  assumes "isDigit a" and "isDigit b"
  shows "\<exists>n\<le>99. parseInt [a, b] = Num (of_nat n)"
proof -
  have "parseInt [a, b] = Num (of_nat (digitsVal [a, b]))"
    using assms by (intro parseInt_digits) auto
  moreover have "digitsVal [a, b] \<le> 99"
    using digitVal_le[OF assms(1)] digitVal_le[OF assms(2)] by (simp add: digitsVal_def)
  ultimately show ?thesis by blast
qed

lemma padStart_digits:
  assumes "\<forall>c\<in>set d. isDigit c" and "3 \<le> length d" and "length d \<le> 4"
  shows "\<exists>a b c e. padStart 4 CHR ''0'' d = [a, b, c, e]
           \<and> isDigit a \<and> isDigit b \<and> isDigit c \<and> isDigit e"
proof -
  from assms(2,3) consider "length d = 3" | "length d = 4" by linarith
  then show ?thesis
  proof cases
    case 1
    then obtain x y z where "d = [x, y, z]"
      by (auto simp: length_Suc_conv eval_nat_numeral)
    then show ?thesis using assms(1) isDigit_zero by (simp add: padStart_def)
  next
    case 2
    then obtain w x y z where "d = [w, x, y, z]"
      by (auto simp: length_Suc_conv eval_nat_numeral)
    then show ?thesis using assms(1) by (simp add: padStart_def)
  qed
qed

lemma parseTimeRangeA_bounds:
  assumes "reMatchAll formatA t = Some match"
  shows "\<exists>a b :: nat. a \<le> 6039 \<and> b \<le> 6039
           \<and> parseTimeRangeA match = Inr (mkRange (of_nat a) (of_nat b))"
proof -
  from formatA_groups[OF assms] obtain d1 d2 where
    m1: "match 1 = Some d1" and m2: "match 2 = Some d2"
    and p1: "\<forall>c\<in>set d1. isDigit c" "3 \<le> length d1" "length d1 \<le> 4"
    and p2: "\<forall>c\<in>set d2. isDigit c" "3 \<le> length d2" "length d2 \<le> 4"
    by blast
  from padStart_digits[OF p1] obtain a b c e where
    s1: "padStart 4 CHR ''0'' d1 = [a, b, c, e]" and da: "isDigit a" "isDigit b" "isDigit c" "isDigit e"
    by blast
  from padStart_digits[OF p2] obtain a' b' c' e' where
    s2: "padStart 4 CHR ''0'' d2 = [a', b', c', e']"
    and db: "isDigit a'" "isDigit b'" "isDigit c'" "isDigit e'"
    by blast
  from parseInt_two_digits[OF da(1,2)] obtain h1 where h1: "h1 \<le> 99" "parseInt [a, b] = Num (of_nat h1)" by blast
  from parseInt_two_digits[OF da(3,4)] obtain n1 where n1: "n1 \<le> 99" "parseInt [c, e] = Num (of_nat n1)" by blast
  from parseInt_two_digits[OF db(1,2)] obtain h2 where h2: "h2 \<le> 99" "parseInt [a', b'] = Num (of_nat h2)" by blast
  from parseInt_two_digits[OF db(3,4)] obtain n2 where n2: "n2 \<le> 99" "parseInt [c', e'] = Num (of_nat n2)" by blast
  from m1 have m1': "match (Suc 0) = Some d1" by simp
  have "parseTimeRangeA match
          = Inr (mkRange (of_nat (h1 * 60 + n1)) (of_nat (h2 * 60 + n2)))"
    by (simp add: parseTimeRangeA_def padStartM_def m1' m2 s1 s2 substring_def Let_def
          h1(2) n1(2) h2(2) n2(2))
  moreover have "h1 * 60 + n1 \<le> 6039" "h2 * 60 + n2 \<le> 6039"
    using h1(1) n1(1) h2(1) n2(1) by linarith+
  ultimately show ?thesis by blast
qed

lemma parseTimeRange_total: "\<exists>r. parseTimeRange v = Inr r"
proof (cases v)
  case (JStr s)
  let ?c = "filter (\<lambda>c. \<not> isSpace c) (toLowerCase s)"
  show ?thesis
  proof (cases "reMatchAll formatA ?c")
    case None
    then show ?thesis using JStr by (auto simp: parseTimeRange_def Let_def split: option.splits)
  next
    case (Some match)
    from parseTimeRangeA_bounds[OF Some] obtain w where "parseTimeRangeA match = Inr w" by blast
    then show ?thesis using JStr Some by (auto simp: parseTimeRange_def Let_def)
  qed
qed (simp_all add: parseTimeRange_def)

lemma parseInt_am: "parseInt ''am'' = NaN"
  by code_simp

lemma parseInt_pm: "parseInt ''pm'' = NaN"
  by code_simp

lemma parseInt_undefined: "parseInt ''undefined'' = NaN"
  by code_simp

lemma parseTimeRangeB_NaN:
  assumes "match 4 = None \<or> match 4 = Some ''am'' \<or> match 4 = Some ''pm''"
  shows "endMin (parseTimeRangeB match) = NaN"
proof -
  from assms have "parseIntV (match 4) = NaN"
    by (auto simp: parseIntV_def parseInt_am parseInt_pm parseInt_undefined)
  then show ?thesis by (simp add: parseTimeRangeB_def Let_def)
qed

lemma cleaned_has:
  "x \<in> set s \<Longrightarrow> \<not> isSpace (toLowerChar x)
   \<Longrightarrow> toLowerChar x \<in> set (filter (\<lambda>c. \<not> isSpace c) (toLowerCase s))"
  by (auto simp: toLowerCase_def)

lemma formatB_not_guard:
  assumes "reMatchAll formatB (filter (\<lambda>c. \<not> isSpace c) (toLowerCase s)) = Some match"
  shows "s \<noteq> [] \<and> \<not> strIncludes (toUpperCase s) ''ANYTIME''
           \<and> \<not> strIncludes (toUpperCase s) ''24 HR''"
proof -
  let ?c = "filter (\<lambda>c. \<not> isSpace c) (toLowerCase s)"
  from reMatchAll_alphabet[OF assms] have al: "set ?c \<subseteq> {c. isDigit c} \<union> set '':amp-''"
    by (simp only: formatB_alphabet)
  have ne: "s \<noteq> []"
  proof
    assume "s = []"
    then have "?c = []" by (simp add: toLowerCase_def)
    with assms formatB_nonempty show False by simp
  qed
  have noN: "CHR ''N'' \<notin> set (toUpperCase s)"
  proof
    assume "CHR ''N'' \<in> set (toUpperCase s)"
    then obtain x where x: "x \<in> set s" "toUpperChar x = CHR ''N''"
      by (auto simp: toUpperCase_def)
    from upper_N[OF x(2)] have l: "toLowerChar x = CHR ''n''" .
    have "\<not> isSpace (toLowerChar x)" unfolding l by (simp add: isSpace_def)
    from cleaned_has[OF x(1) this] al have "CHR ''n'' \<in> {c. isDigit c} \<union> set '':amp-''"
      unfolding l by blast
    then show False by (simp add: isDigit_def)
  qed
  have noH: "CHR ''H'' \<notin> set (toUpperCase s)"
  proof
    assume "CHR ''H'' \<in> set (toUpperCase s)"
    then obtain x where x: "x \<in> set s" "toUpperChar x = CHR ''H''"
      by (auto simp: toUpperCase_def)
    from upper_H[OF x(2)] have l: "toLowerChar x = CHR ''h''" .
    have "\<not> isSpace (toLowerChar x)" unfolding l by (simp add: isSpace_def)
    from cleaned_has[OF x(1) this] al have "CHR ''h'' \<in> {c. isDigit c} \<union> set '':amp-''"
      unfolding l by blast
    then show False by (simp add: isDigit_def)
  qed
  have a: "\<not> strIncludes (toUpperCase s) ''ANYTIME''"
  proof
    assume "strIncludes (toUpperCase s) ''ANYTIME''"
    then have "set ''ANYTIME'' \<subseteq> set (toUpperCase s)"
      unfolding strIncludes_def by (rule set_mono_sublist)
    with noN show False by simp
  qed
  have b: "\<not> strIncludes (toUpperCase s) ''24 HR''"
  proof
    assume "strIncludes (toUpperCase s) ''24 HR''"
    then have "set ''24 HR'' \<subseteq> set (toUpperCase s)"
      unfolding strIncludes_def by (rule set_mono_sublist)
    with noH show False by simp
  qed
  from ne a b show ?thesis by blast
qed


lemma parseTimeRange_0900_2400:
  "parseTimeRange (JStr ''0900-2400'') = Inr (Some (mkRange 540 1440))"
  by code_simp

lemma parseTimeRange_0900_2500:
  "parseTimeRange (JStr ''0900-2500'') = Inr (Some (mkRange 540 1500))"
  by code_simp

text \<open>
  Claim C7 says that a returned window has both minutes in \<open>[0, 1440)\<close> unless it is
  the all-day window \<open>(0, 1440)\<close>. The digit groups of the first format are not
  range-checked: \<open>"0900-2400"\<close> gives \<open>(540, 1440)\<close> and \<open>"0900-2500"\<close> gives
  \<open>(540, 1500)\<close>, whose end is not below 1440 and which are not the all-day window.
\<close>

theorem parseTimeRange_out_of_range:
  "parseTimeRange (JStr ''0900-2400'') = Inr (Some (mkRange 540 1440))
   \<and> \<not> numLt (endMin (mkRange 540 1440)) (Num 1440)
   \<and> mkRange 540 1440 \<noteq> mkRange 0 1440
   \<and> parseTimeRange (JStr ''0900-2500'') = Inr (Some (mkRange 540 1500))
   \<and> \<not> numLt (endMin (mkRange 540 1500)) (Num 1440)
   \<and> mkRange 540 1500 \<noteq> mkRange 0 1440"
  using parseTimeRange_0900_2400 parseTimeRange_0900_2500 by simp

text \<open>
  Claim C7, amended. An input that is not a string, is empty, or contains \<open>ANYTIME\<close> or
  \<open>24 HR\<close> in any letter case gives the all-day window \<open>(0, 1440)\<close>. Any other
  string that matches the first format (three or four digits on each side) gives a
  window whose start and end are whole numbers from 0 to 6039: each is \<open>HH * 60 + MM\<close>
  with \<open>HH\<close> and \<open>MM\<close> two-digit fields from 00 to 99, so values of 1440 and more
  occur. Windows of the second format are not covered.
\<close>

theorem parseTimeRange_guard_and_formatA:
  "((case v of JStr s \<Rightarrow> s = [] \<or> strIncludes (toUpperCase s) ''ANYTIME''
                              \<or> strIncludes (toUpperCase s) ''24 HR''
             | _ \<Rightarrow> True) \<longrightarrow>
      parseTimeRange v = Inr (Some (mkRange 0 1440)))
   \<and> (t \<noteq> [] \<and> \<not> strIncludes (toUpperCase t) ''ANYTIME''
        \<and> \<not> strIncludes (toUpperCase t) ''24 HR''
        \<and> reMatchAll formatA (filter (\<lambda>c. \<not> isSpace c) (toLowerCase t)) \<noteq> None \<longrightarrow>
      (\<exists>a b :: nat. a \<le> 6039 \<and> b \<le> 6039
          \<and> parseTimeRange (JStr t) = Inr (Some (mkRange (of_nat a) (of_nat b)))))"
proof (intro conjI impI)
  assume "case v of JStr s \<Rightarrow> s = [] \<or> strIncludes (toUpperCase s) ''ANYTIME''
                              \<or> strIncludes (toUpperCase s) ''24 HR''
             | _ \<Rightarrow> True"
  then show "parseTimeRange v = Inr (Some (mkRange 0 1440))"
    by (cases v) (auto simp: parseTimeRange_def)
next
  assume h: "t \<noteq> [] \<and> \<not> strIncludes (toUpperCase t) ''ANYTIME''
        \<and> \<not> strIncludes (toUpperCase t) ''24 HR''
        \<and> reMatchAll formatA (filter (\<lambda>c. \<not> isSpace c) (toLowerCase t)) \<noteq> None"
  then obtain match where
    m: "reMatchAll formatA (filter (\<lambda>c. \<not> isSpace c) (toLowerCase t)) = Some match"
    by blast
  from parseTimeRangeA_bounds[OF m] obtain a b :: nat where
    ab: "a \<le> 6039" "b \<le> 6039" "parseTimeRangeA match = Inr (mkRange (of_nat a) (of_nat b))"
    by blast
  from h m ab(3) have "parseTimeRange (JStr t) = Inr (Some (mkRange (of_nat a) (of_nat b)))"
    by (simp add: parseTimeRange_def Let_def)
  with ab(1,2) show "\<exists>a b :: nat. a \<le> 6039 \<and> b \<le> 6039
          \<and> parseTimeRange (JStr t) = Inr (Some (mkRange (of_nat a) (of_nat b)))"
    by blast
qed

lemma guard_ANYTIME: "strIncludes (toUpperCase ''Anytime'') ''ANYTIME''"
  by code_simp

lemma guard_free_0900_2400:
  "\<not> strIncludes (toUpperCase ''0900-2400'') ''ANYTIME''
   \<and> \<not> strIncludes (toUpperCase ''0900-2400'') ''24 HR''"
  by code_simp

lemma formatA_0900_2400:
  "reMatchAll formatA (filter (\<lambda>c. \<not> isSpace c) (toLowerCase ''0900-2400'')) \<noteq> None"
  by code_simp

text \<open>The theorem at \<open>"Anytime"\<close> and at \<open>"0900-2400"\<close>.\<close>

theorem parseTimeRange_guard_and_formatA_witness:
  "strIncludes (toUpperCase ''Anytime'') ''ANYTIME''
   \<and> parseTimeRange (JStr ''Anytime'') = Inr (Some (mkRange 0 1440))
   \<and> ''0900-2400'' \<noteq> []
   \<and> \<not> strIncludes (toUpperCase ''0900-2400'') ''ANYTIME''
   \<and> \<not> strIncludes (toUpperCase ''0900-2400'') ''24 HR''
   \<and> reMatchAll formatA (filter (\<lambda>c. \<not> isSpace c) (toLowerCase ''0900-2400'')) \<noteq> None
   \<and> (\<exists>a b :: nat. a \<le> 6039 \<and> b \<le> 6039
         \<and> parseTimeRange (JStr ''0900-2400'') = Inr (Some (mkRange (of_nat a) (of_nat b))))"
  using parseTimeRange_guard_and_formatA[of "JStr ''Anytime''" "''0900-2400''"]
    guard_ANYTIME guard_free_0900_2400 formatA_0900_2400
  by simp

text \<open>
  Claim C10. For every input string whose cleaned form does not match the first format
  and matches the second, \<open>parseTimeRange\<close> returns a window whose \<open>endMin\<close> is
  \<open>NaN\<close>: the end hour is parsed from element 4 of the match array, the meridiem group
  of the start side, which is \<open>undefined\<close>, \<open>am\<close> or \<open>pm\<close>. A record whose hours parse
  to a window with \<open>NaN\<close> as end is never active, and the window overlaps no query
  range: it behaves as an empty window.
\<close>

theorem parseTimeRange_formatB_end_is_NaN:
  "(reMatchAll formatA (filter (\<lambda>c. \<not> isSpace c) (toLowerCase s)) = None
      \<and> reMatchAll formatB (filter (\<lambda>c. \<not> isSpace c) (toLowerCase s)) = Some match \<longrightarrow>
        (match 4 = None \<or> match 4 = Some ''am'' \<or> match 4 = Some ''pm'')
        \<and> parseIntV (match 4) = NaN
        \<and> parseTimeRange (JStr s) = Inr (Some (parseTimeRangeB match))
        \<and> endMin (parseTimeRangeB match) = NaN)
   \<and> (parseTimeRange (hours p) = Inr (Some w) \<and> endMin w = NaN \<longrightarrow>
        isActiveAt p d = Inr False \<and> overlapMinutes (Some w) us ue dur = Num 0)"
proof (intro conjI impI)
  assume h: "reMatchAll formatA (filter (\<lambda>c. \<not> isSpace c) (toLowerCase s)) = None
      \<and> reMatchAll formatB (filter (\<lambda>c. \<not> isSpace c) (toLowerCase s)) = Some match"
  then have b: "reMatchAll formatB (filter (\<lambda>c. \<not> isSpace c) (toLowerCase s)) = Some match"
    by simp
  from formatB_group4[OF b]
  show g4: "match 4 = None \<or> match 4 = Some ''am'' \<or> match 4 = Some ''pm''" .
  then show "parseIntV (match 4) = NaN"
    by (auto simp: parseIntV_def parseInt_am parseInt_pm parseInt_undefined)
  from formatB_not_guard[OF b] h
  show "parseTimeRange (JStr s) = Inr (Some (parseTimeRangeB match))"
    by (simp add: parseTimeRange_def Let_def)
  from g4 show "endMin (parseTimeRangeB match) = NaN" by (rule parseTimeRangeB_NaN)
next
  assume h: "parseTimeRange (hours p) = Inr (Some w) \<and> endMin w = NaN"
  from parseDays_result[of "days p"] obtain ad where "parseDays (days p) = Inr ad" by blast
  with h show "isActiveAt p d = Inr False"
    by (cases ad) (simp_all add: isActiveAt_def Let_def)
next
  assume "parseTimeRange (hours p) = Inr (Some w) \<and> endMin w = NaN"
  then show "overlapMinutes (Some w) us ue dur = Num 0"
    by (simp add: overlapMinutes_def Let_def)
qed


lemma cleaned_8am_6pm: "filter (\<lambda>c. \<not> isSpace c) (toLowerCase ''8am-6pm'') = ''8am-6pm''"
  by code_simp

lemma formatA_8am_6pm: "reMatchAll formatA ''8am-6pm'' = None"
  by code_simp

lemma formatB_8am_6pm: "reMatchAll formatB ''8am-6pm'' \<noteq> None"
  by code_simp

lemma formatB_8am_6pm_group4: "the (reMatchAll formatB ''8am-6pm'') 4 = Some ''am''"
  by code_simp

text \<open>
  The theorem at \<open>"8am-6pm"\<close>: the record with days \<open>"M-F"\<close> and these hours is not
  active on Monday at 09:00, and the window overlaps nothing of 09:00 to 10:00.
\<close>

theorem parseTimeRange_formatB_end_is_NaN_witness:
  "reMatchAll formatA (filter (\<lambda>c. \<not> isSpace c) (toLowerCase ''8am-6pm'')) = None
   \<and> reMatchAll formatB (filter (\<lambda>c. \<not> isSpace c) (toLowerCase ''8am-6pm''))
       = Some (the (reMatchAll formatB ''8am-6pm''))
   \<and> the (reMatchAll formatB ''8am-6pm'') 4 = Some ''am''
   \<and> parseIntV (the (reMatchAll formatB ''8am-6pm'') 4) = NaN
   \<and> parseTimeRange (hours (mkProps (JStr ''M-F'') (JStr ''8am-6pm'') JUndefined JUndefined))
       = Inr (Some \<lparr>startMin = Num 480, endMin = NaN\<rparr>)
   \<and> endMin \<lparr>startMin = Num 480, endMin = NaN\<rparr> = NaN
   \<and> isActiveAt (mkProps (JStr ''M-F'') (JStr ''8am-6pm'') JUndefined JUndefined) (mkDate 1 9 0)
       = Inr False
   \<and> overlapMinutes (Some \<lparr>startMin = Num 480, endMin = NaN\<rparr>) (Num 540) (Num 600) (Num 60)
       = Num 0"
proof -
  let ?m = "the (reMatchAll formatB ''8am-6pm'')"
  let ?p = "mkProps (JStr ''M-F'') (JStr ''8am-6pm'') JUndefined JUndefined"
  let ?w = "\<lparr>startMin = Num 480, endMin = NaN\<rparr>"
  have a: "reMatchAll formatA (filter (\<lambda>c. \<not> isSpace c) (toLowerCase ''8am-6pm'')) = None"
    by (simp only: cleaned_8am_6pm formatA_8am_6pm)
  have b: "reMatchAll formatB (filter (\<lambda>c. \<not> isSpace c) (toLowerCase ''8am-6pm'')) = Some ?m"
    using formatB_8am_6pm by (simp only: cleaned_8am_6pm) simp
  have c: "parseTimeRange (hours ?p) = Inr (Some ?w)"
    using parseTimeRange_8am_6pm by simp
  have d: "endMin ?w = NaN" by simp
  note T = parseTimeRange_formatB_end_is_NaN
    [of "''8am-6pm''" ?m ?p ?w "mkDate 1 9 0" "Num 540" "Num 600" "Num 60"]
  from T a b have e: "parseIntV (?m 4) = NaN" by blast
  from T c d have f: "isActiveAt ?p (mkDate 1 9 0) = Inr False"
    and g: "overlapMinutes (Some ?w) (Num 540) (Num 600) (Num 60) = Num 0"
    by blast+
  from a b formatB_8am_6pm_group4 e c d f g show ?thesis by (intro conjI)
qed

section \<open>Point-in-time evaluation\<close>

lemma parseTimeRange_2200_0600:
  "parseTimeRange (JStr ''2200-0600'') = Inr (Some (mkRange 1320 360))"
  by code_simp

lemma minuteOfDay_Num: "minuteOfDay d = Num (of_nat (getHours d) * 60 + of_nat (getMinutes d))"
  by (simp add: minuteOfDay_def)

lemma minuteOfDay_valid:
  assumes "validDate d"
  shows "\<exists>m. minuteOfDay d = Num m \<and> 0 \<le> m \<and> m < 1440"
proof -
  from assms have "getHours d \<le> 23" and "getMinutes d \<le> 59"
    by (simp_all add: validDate_def)
  then have "getHours d * 60 + getMinutes d < 1440" by linarith
  then have "(of_nat (getHours d * 60 + getMinutes d) :: rat) < of_nat 1440"
    by (simp only: of_nat_less_iff)
  then show ?thesis by (simp add: minuteOfDay_Num)
qed

lemma yesterday_valid:
  "n < 7 \<Longrightarrow> (int n - 1 + 7) mod 7 = (if n = 0 then 6 else int n - 1)"
  by presburger

text \<open>
  Claim C3. \<open>isActiveAt\<close> on overnight windows. With no day restriction, the regulation
  is active iff the minute is at or after the start or before the end when the window
  is overnight (end at or before start), and iff start \<open>\<le>\<close> minute \<open><\<close> end otherwise.
  With a day restriction and an overnight window, it is active iff the previous weekday
  is in the day set and the minute is before the end, or the weekday of the query is in
  the day set and the minute is at or after the start. For the window \<open>(1320, 360)\<close>,
  parsed from \<open>"2200-0600"\<close>, with no day restriction, it is active at minute 0 and at
  minute 1380 and not active at minute 600, on every weekday.
\<close>

theorem isActiveAt_overnight:
  "(parseDays (days p1) = Inr None \<and> parseTimeRange (hours p1) = Inr (Some tr1) \<longrightarrow>
      isActiveAt p1 d1 =
        Inr (if numLe (endMin tr1) (startMin tr1)
             then numGe (minuteOfDay d1) (startMin tr1) \<or> numLt (minuteOfDay d1) (endMin tr1)
             else numLe (startMin tr1) (minuteOfDay d1) \<and> numLt (minuteOfDay d1) (endMin tr1)))
   \<and> (parseDays (days p2) = Inr (Some ad) \<and> parseTimeRange (hours p2) = Inr (Some tr2)
        \<and> numLe (endMin tr2) (startMin tr2) \<and> validDate d2 \<longrightarrow>
      isActiveAt p2 d2 =
        Inr ((setHas ad (if getDay d2 = 0 then 6 else int (getDay d2) - 1)
                \<and> numLt (minuteOfDay d2) (endMin tr2))
             \<or> (setHas ad (int (getDay d2)) \<and> numGe (minuteOfDay d2) (startMin tr2))))
   \<and> parseTimeRange (JStr ''2200-0600'') = Inr (Some (mkRange 1320 360))
   \<and> (\<forall>wd. isActiveAt (mkProps JUndefined (JStr ''2200-0600'') JUndefined JUndefined)
                        (mkDate wd 0 0) = Inr True)
   \<and> (\<forall>wd. isActiveAt (mkProps JUndefined (JStr ''2200-0600'') JUndefined JUndefined)
                        (mkDate wd 23 0) = Inr True)
   \<and> (\<forall>wd. isActiveAt (mkProps JUndefined (JStr ''2200-0600'') JUndefined JUndefined)
                        (mkDate wd 10 0) = Inr False)"
proof (intro conjI allI impI)
  assume "parseDays (days p1) = Inr None \<and> parseTimeRange (hours p1) = Inr (Some tr1)"
  then show "isActiveAt p1 d1 =
        Inr (if numLe (endMin tr1) (startMin tr1)
             then numGe (minuteOfDay d1) (startMin tr1) \<or> numLt (minuteOfDay d1) (endMin tr1)
             else numLe (startMin tr1) (minuteOfDay d1) \<and> numLt (minuteOfDay d1) (endMin tr1))"
    by (simp add: isActiveAt_def numGe_def Let_def)
next
  assume h: "parseDays (days p2) = Inr (Some ad) \<and> parseTimeRange (hours p2) = Inr (Some tr2)
        \<and> numLe (endMin tr2) (startMin tr2) \<and> validDate d2"
  then have "getDay d2 < 7" by (simp add: validDate_def)
  then have y: "(int (getDay d2) - 1 + 7) mod 7
                = (if getDay d2 = 0 then 6 else int (getDay d2) - 1)"
    by (rule yesterday_valid)
  from h show "isActiveAt p2 d2 =
        Inr ((setHas ad (if getDay d2 = 0 then 6 else int (getDay d2) - 1)
                \<and> numLt (minuteOfDay d2) (endMin tr2))
             \<or> (setHas ad (int (getDay d2)) \<and> numGe (minuteOfDay d2) (startMin tr2)))"
    unfolding isActiveAt_def Let_def y by auto
next
  show "parseTimeRange (JStr ''2200-0600'') = Inr (Some (mkRange 1320 360))"
    by (rule parseTimeRange_2200_0600)
next
  fix wd
  show "isActiveAt (mkProps JUndefined (JStr ''2200-0600'') JUndefined JUndefined)
          (mkDate wd 0 0) = Inr True"
    by (simp add: isActiveAt_def parseDays_undefined parseTimeRange_2200_0600
          minuteOfDay_Num numGe_def)
next
  fix wd
  show "isActiveAt (mkProps JUndefined (JStr ''2200-0600'') JUndefined JUndefined)
          (mkDate wd 23 0) = Inr True"
    by (simp add: isActiveAt_def parseDays_undefined parseTimeRange_2200_0600
          minuteOfDay_Num numGe_def)
next
  fix wd
  show "isActiveAt (mkProps JUndefined (JStr ''2200-0600'') JUndefined JUndefined)
          (mkDate wd 10 0) = Inr False"
    by (simp add: isActiveAt_def parseDays_undefined parseTimeRange_2200_0600
          minuteOfDay_Num numGe_def)
qed

text \<open>
  The theorem at concrete inputs: the record with hours \<open>"2200-0600"\<close> and no days at
  Monday 05:59, and the record with days \<open>"M-F"\<close> and the same hours at Saturday 01:00
  (active: Friday is in the set) and at Sunday 01:00 (not active).
\<close>

theorem isActiveAt_overnight_witness:
  "parseDays (days (mkProps JUndefined (JStr ''2200-0600'') JUndefined JUndefined)) = Inr None
   \<and> parseTimeRange (hours (mkProps JUndefined (JStr ''2200-0600'') JUndefined JUndefined))
       = Inr (Some (mkRange 1320 360))
   \<and> isActiveAt (mkProps JUndefined (JStr ''2200-0600'') JUndefined JUndefined) (mkDate 1 5 59)
       = Inr True
   \<and> parseDays (days (mkProps (JStr ''M-F'') (JStr ''2200-0600'') JUndefined JUndefined))
       = Inr (Some [1, 2, 3, 4, 5])
   \<and> parseTimeRange (hours (mkProps (JStr ''M-F'') (JStr ''2200-0600'') JUndefined JUndefined))
       = Inr (Some (mkRange 1320 360))
   \<and> numLe (endMin (mkRange 1320 360)) (startMin (mkRange 1320 360))
   \<and> validDate (mkDate 6 1 0) \<and> validDate (mkDate 0 1 0)
   \<and> isActiveAt (mkProps (JStr ''M-F'') (JStr ''2200-0600'') JUndefined JUndefined) (mkDate 6 1 0)
       = Inr True
   \<and> isActiveAt (mkProps (JStr ''M-F'') (JStr ''2200-0600'') JUndefined JUndefined) (mkDate 0 1 0)
       = Inr False"
  using isActiveAt_overnight
    [of "mkProps JUndefined (JStr ''2200-0600'') JUndefined JUndefined"
        "mkRange 1320 360" "mkDate 1 5 59"
        "mkProps (JStr ''M-F'') (JStr ''2200-0600'') JUndefined JUndefined"
        "[1, 2, 3, 4, 5]" "mkRange 1320 360" "mkDate 6 1 0"]
    isActiveAt_overnight
    [of "mkProps JUndefined (JStr ''2200-0600'') JUndefined JUndefined"
        "mkRange 1320 360" "mkDate 1 5 59"
        "mkProps (JStr ''M-F'') (JStr ''2200-0600'') JUndefined JUndefined"
        "[1, 2, 3, 4, 5]" "mkRange 1320 360" "mkDate 0 1 0"]
  by (simp add: parseDays_undefined parseDays_M_F parseTimeRange_2200_0600 minuteOfDay_Num
        numGe_def validDate_def setHas_def)

section \<open>Coverage of an interval\<close>

lemma overlapMinutes_Num:
  assumes "us < ue"
  shows "\<exists>ov. overlapMinutes regTime (Num us) (Num ue) (Num (ue - us)) = Num ov \<and> 0 \<le> ov"
proof (cases regTime)
  case None
  then show ?thesis using assms by (simp add: overlapMinutes_def)
next
  case (Some rt)
  obtain a b where rt: "rt = \<lparr>startMin = a, endMin = b\<rparr>" by (cases rt) auto
  show ?thesis
    using assms unfolding Some rt overlapMinutes_def
    by (cases a; cases b) (auto simp: Let_def)
qed



lemma overlapMinutes_all_day:
  "overlapMinutes None us ue dur = dur"
  "overlapMinutes (Some (mkRange 0 1440)) us ue dur = dur"
  by (simp_all add: overlapMinutes_def)


subsection \<open>Rounding to the nearest double\<close>



lemma roundHalfEven_ge: "\<lfloor>q\<rfloor> \<le> roundHalfEven q"
  by (simp add: roundHalfEven_def Let_def)

text \<open>The rounded value is within half a unit of the last place of the number.\<close>

lemma roundHalfEven_near: "\<bar>of_int (roundHalfEven q) - q\<bar> \<le> 1 / 2"
proof -
  define f where "f = \<lfloor>q\<rfloor>"
  have 1: "of_int f \<le> q" "q < of_int f + 1" unfolding f_def by linarith+
  have "roundHalfEven q = (if q - of_int f < 1 / 2 then f else if 1 / 2 < q - of_int f then f + 1
                           else if even f then f else f + 1)"
    by (simp add: roundHalfEven_def Let_def f_def)
  then show ?thesis using 1 by (auto simp: abs_if)
qed

lemma toDouble_zero: "toDouble 0 = 0"
  by (simp add: toDouble_def)



lemma toDouble_third: "toDouble (1 / 3) = 6004799503160661 / 18014398509481984"
  by code_simp

lemma toDouble_nonneg: "0 \<le> x \<Longrightarrow> 0 \<le> toDouble x"
proof -
  assume x: "0 \<le> x"
  have "0 \<le> \<lfloor>x / 2 powi (floorLog2 x - 52)\<rfloor>" using x by simp
  with roundHalfEven_ge[of "x / 2 powi (floorLog2 x - 52)"]
  have "0 \<le> roundHalfEven (x / 2 powi (floorLog2 x - 52))" by linarith
  then show ?thesis using x by (simp add: toDouble_def Let_def)
qed




subsection \<open>The overlap as a count of minutes\<close>














lemma minuteOfDay_minutesOf: "minuteOfDay d = Num (of_int (minutesOf d))"
  by (simp add: minuteOfDay_Num minutesOf_def)


text \<open>
  A minute is inside the window exactly when the point-in-time evaluation of a record
  without a day restriction says that the regulation is in force at that minute.
\<close>

lemma isActiveAt_specInWindow:
  assumes "parseDays (days p) = Inr None" and "parseTimeRange (hours p) = Inr regTime"
  shows "isActiveAt p d = Inr (specInWindow regTime (minutesOf d))"
  using assms
  by (simp add: isActiveAt_def Let_def specInWindow_def minuteOfDay_minutesOf numGe_def
        split: option.splits)

subsection \<open>The branches of \<open>calculateCoverage\<close>\<close>

lemma calculateCoverage_cases:
  assumes pd: "parseDays (days p) = Inr activeDays"
    and pt: "parseTimeRange (hours p) = Inr regTime"
    and tx: "toLowerCaseM (jsOr (regulation p) (JStr [])) = Inr txt"
    and us: "minuteOfDay start = Num us"
    and ue: "minuteOfDay finish = Num ue"
    and lt: "us < ue"
    and ov: "overlapMinutes regTime (Num us) (Num ue) (Num (ue - us)) = Num ov"
  shows "calculateCoverage p start finish =
     Inr (if \<not> (case activeDays of None \<Rightarrow> True | Some ad \<Rightarrow> setHas ad (int (getDay start)))
          then Num 1
          else if ov = 0 then Num 1
          else if reTest noParkingRe txt then numDiv (Num (ue - us - ov)) (Num (ue - us))
          else (case timeLimitMinutes (jsOr (hrlimit p) (hours p)) of
                  Some tlm \<Rightarrow>
                    if truthy (JNum tlm) \<and> 0 < ov
                    then mathMin (Num 1)
                           (numDiv (numAdd (Num (ue - us - ov)) (mathMin tlm (Num ov)))
                                   (Num (ue - us)))
                    else numDiv (Num (ue - us - ov)) (Num (ue - us))
                | None \<Rightarrow> numDiv (Num (ue - us - ov)) (Num (ue - us))))"
  using lt
  by (simp add: calculateCoverage_def pd pt tx us ue ov Let_def numGt_def
           del: numDiv.simps split: option.splits)


subsection \<open>No parking\<close>





text \<open>
  Further runs of the no-parking branch: an all-day window, an overnight window on a
  record without a day set, and a quotient that is not a double.
\<close>

lemma coverage_anytime:
  "calculateCoverage (mkProps (JStr ''M-F'') (JStr ''ANYTIME'') JUndefined (JStr ''Tow-away zone''))
     (mkDate 1 9 0) (mkDate 1 10 0) = Inr (Num 0)"
  by code_simp

lemma coverage_overnight:
  "calculateCoverage (mkProps JUndefined (JStr ''2200-0600'') JUndefined (JStr ''NO PARKING''))
     (mkDate 0 5 0) (mkDate 0 7 0) = Inr (Num (1 / 2))"
  by code_simp

lemma coverage_rec1_8_11:
  "calculateCoverage (mkProps (JStr ''M-F'') (JStr ''0900-1800'') JUndefined (JStr ''No parking 9am-6pm''))
     (mkDate 1 8 0) (mkDate 1 11 0) = Inr (Num (6004799503160661 / 18014398509481984))"
  by code_simp






subsection \<open>The hour limit\<close>























subsection \<open>Intersection and coverage\<close>

lemma intersectsRange_zero_length:
  "intersectsRange (mkProps (JStr ''M-F'') (JStr ''0900-1800'') JUndefined (JStr ''No parking 9am-6pm''))
     (mkDate 1 10 0) (mkDate 1 10 0) = Inr False"
  by code_simp

lemma coverage_zero_length:
  "calculateCoverage (mkProps (JStr ''M-F'') (JStr ''0900-1800'') JUndefined (JStr ''No parking 9am-6pm''))
     (mkDate 1 10 0) (mkDate 1 10 0) = Inr (Num 0)"
  by code_simp

lemma intersectsRange_past_midnight:
  "intersectsRange (mkProps (JStr ''M-F'') (JStr ''0900-1800'') JUndefined (JStr ''No parking 9am-6pm''))
     (mkDate 1 23 30) (mkDate 2 0 30) = Inr False"
  by code_simp

lemma coverage_past_midnight:
  "calculateCoverage (mkProps (JStr ''M-F'') (JStr ''0900-1800'') JUndefined (JStr ''No parking 9am-6pm''))
     (mkDate 1 23 30) (mkDate 2 0 30) = Inr (Num 0)"
  by code_simp

text \<open>
  Claim C6 says that \<open>calculateCoverage\<close> returns 1 whenever \<open>intersectsRange\<close> is
  false, for every pair of dates. On the record with days \<open>"M-F"\<close> and hours
  \<open>"0900-1800"\<close>, for a range of length zero (Monday 10:00 to Monday 10:00) and for a
  range that ends after midnight (Monday 23:30 to Tuesday 00:30), \<open>intersectsRange\<close> is
  false and \<open>calculateCoverage\<close> returns 0: the guard on the duration comes first.
\<close>

theorem intersectsRange_false_coverage_not_one:
  "intersectsRange (mkProps (JStr ''M-F'') (JStr ''0900-1800'') JUndefined (JStr ''No parking 9am-6pm''))
     (mkDate 1 10 0) (mkDate 1 10 0) = Inr False
   \<and> calculateCoverage (mkProps (JStr ''M-F'') (JStr ''0900-1800'') JUndefined (JStr ''No parking 9am-6pm''))
     (mkDate 1 10 0) (mkDate 1 10 0) = Inr (Num 0)
   \<and> calculateCoverage (mkProps (JStr ''M-F'') (JStr ''0900-1800'') JUndefined (JStr ''No parking 9am-6pm''))
     (mkDate 1 10 0) (mkDate 1 10 0) \<noteq> Inr (Num 1)
   \<and> intersectsRange (mkProps (JStr ''M-F'') (JStr ''0900-1800'') JUndefined (JStr ''No parking 9am-6pm''))
     (mkDate 1 23 30) (mkDate 2 0 30) = Inr False
   \<and> calculateCoverage (mkProps (JStr ''M-F'') (JStr ''0900-1800'') JUndefined (JStr ''No parking 9am-6pm''))
     (mkDate 1 23 30) (mkDate 2 0 30) = Inr (Num 0)"
proof -
  note a = intersectsRange_zero_length and b = coverage_zero_length
  have c: "calculateCoverage
      (mkProps (JStr ''M-F'') (JStr ''0900-1800'') JUndefined (JStr ''No parking 9am-6pm''))
      (mkDate 1 10 0) (mkDate 1 10 0) \<noteq> Inr (Num 1)"
    unfolding b by simp
  from a b c intersectsRange_past_midnight coverage_past_midnight
  show ?thesis by (intro conjI)
qed

lemma intersects_false_overlap_zero:
  assumes "us < ue" and "0 \<le> us" and "us < 1440"
    and "(if numLe (endMin rt) (startMin rt)
          then numLt (mathMax (startMin rt) (Num us)) (mathMin (Num 1440) (Num ue))
               \<or> numLt (mathMax (Num 0) (Num us)) (mathMin (endMin rt) (Num ue))
          else numLt (mathMax (startMin rt) (Num us)) (mathMin (endMin rt) (Num ue))) = False"
  shows "overlapMinutes (Some rt) (Num us) (Num ue) (Num (ue - us)) = Num 0"
proof -
  obtain a b where rt: "rt = \<lparr>startMin = a, endMin = b\<rparr>" by (cases rt) auto
  show ?thesis
    using assms unfolding rt overlapMinutes_def
    by (cases a; cases b) (auto simp: Let_def split: if_splits)
qed

text \<open>
  Claim C6, amended. For every record whose regulation field is a string or absent, and
  every pair of valid dates with the end minute of the day after the start minute, if
  \<open>intersectsRange\<close> returns false then \<open>calculateCoverage\<close> returns 1.
\<close>

theorem intersectsRange_false_coverage_one:
  assumes "intersectsRange p start finish = Inr False"
    and "numLt (minuteOfDay start) (minuteOfDay finish)"
    and "toLowerCaseM (jsOr (regulation p) (JStr [])) = Inr txt"
    and "validDate start"
  shows "calculateCoverage p start finish = Inr (Num 1)"
proof -
  obtain us where us: "minuteOfDay start = Num us" and us0: "0 \<le> us" and us1: "us < 1440"
    using minuteOfDay_valid[OF assms(4)] by auto
  obtain ue where ue: "minuteOfDay finish = Num ue" by (simp add: minuteOfDay_Num)
  from assms(2) have lt: "us < ue" by (simp add: us ue)
  from assms(1) obtain activeDays regTime where
    pd: "parseDays (days p) = Inr activeDays" and pt: "parseTimeRange (hours p) = Inr regTime"
    by (auto simp: intersectsRange_def split: sum.splits)
  from overlapMinutes_Num[OF lt] obtain ov where
    ov: "overlapMinutes regTime (Num us) (Num ue) (Num (ue - us)) = Num ov" by blast
  note cc = calculateCoverage_cases[OF pd pt assms(3) us ue lt ov]
  show ?thesis
  proof (cases "case activeDays of None \<Rightarrow> True | Some ad \<Rightarrow> setHas ad (int (getDay start))")
    case False
    then show ?thesis by (simp add: cc)
  next
    case True
    with assms(1) obtain rt where rt: "regTime = Some rt"
      by (auto simp: intersectsRange_def pd pt Let_def split: option.splits if_splits)
    from assms(1) True have "(if numLe (endMin rt) (startMin rt)
          then numLt (mathMax (startMin rt) (Num us)) (mathMin (Num 1440) (Num ue))
               \<or> numLt (mathMax (Num 0) (Num us)) (mathMin (endMin rt) (Num ue))
          else numLt (mathMax (startMin rt) (Num us)) (mathMin (endMin rt) (Num ue))) = False"
      by (auto simp: intersectsRange_def pd pt rt us ue Let_def split: option.splits if_splits)
    from intersects_false_overlap_zero[OF lt us0 us1 this] ov rt
    have "ov = 0" by simp
    then show ?thesis using True by (simp add: cc)
  qed
qed

text \<open>The theorem on the no-parking record, Monday 20:00 to 21:00.\<close>

theorem intersectsRange_false_coverage_one_witness:
  "intersectsRange (mkProps (JStr ''M-F'') (JStr ''0900-1800'') JUndefined (JStr ''No parking 9am-6pm''))
     (mkDate 1 20 0) (mkDate 1 21 0) = Inr False
   \<and> numLt (minuteOfDay (mkDate 1 20 0)) (minuteOfDay (mkDate 1 21 0))
   \<and> toLowerCaseM (jsOr (regulation (mkProps (JStr ''M-F'') (JStr ''0900-1800'') JUndefined (JStr ''No parking 9am-6pm'')))
                         (JStr [])) = Inr ''no parking 9am-6pm''
   \<and> validDate (mkDate 1 20 0)
   \<and> calculateCoverage (mkProps (JStr ''M-F'') (JStr ''0900-1800'') JUndefined (JStr ''No parking 9am-6pm''))
        (mkDate 1 20 0) (mkDate 1 21 0) = Inr (Num 1)"
proof -
  have a: "intersectsRange (mkProps (JStr ''M-F'') (JStr ''0900-1800'') JUndefined (JStr ''No parking 9am-6pm''))
     (mkDate 1 20 0) (mkDate 1 21 0) = Inr False"
    by code_simp
  have b: "numLt (minuteOfDay (mkDate 1 20 0)) (minuteOfDay (mkDate 1 21 0))"
    by (simp add: minuteOfDay_Num)
  have c: "toLowerCaseM (jsOr (regulation (mkProps (JStr ''M-F'') (JStr ''0900-1800'') JUndefined (JStr ''No parking 9am-6pm'')))
                         (JStr [])) = Inr ''no parking 9am-6pm''"
    by code_simp
  have d: "validDate (mkDate 1 20 0)" by (simp add: validDate_def)
  from intersectsRange_false_coverage_one[OF a b c d] a b c d show ?thesis by blast
qed

section \<open>Which calls return\<close>

text \<open>
  \<open>parseDays\<close>, \<open>parseTimeRange\<close> (above), \<open>isActiveAt\<close> and \<open>intersectsRange\<close>
  return on every input. \<open>calculateCoverage\<close> returns exactly when the regulation
  field is a string or falsy.
\<close>

lemma isActiveAt_total: "\<exists>b. isActiveAt p d = Inr b"
proof -
  from parseDays_result[of "days p"] obtain ad where "parseDays (days p) = Inr ad" by blast
  moreover from parseTimeRange_total[of "hours p"] obtain tr where
    "parseTimeRange (hours p) = Inr tr" by blast
  ultimately show ?thesis by (simp add: isActiveAt_def Let_def)
qed

lemma intersectsRange_total: "\<exists>b. intersectsRange p start finish = Inr b"
proof -
  from parseDays_result[of "days p"] obtain ad where "parseDays (days p) = Inr ad" by blast
  moreover from parseTimeRange_total[of "hours p"] obtain tr where
    "parseTimeRange (hours p) = Inr tr" by blast
  ultimately show ?thesis
    by (auto simp: intersectsRange_def Let_def split: option.splits)
qed

lemma calculateCoverage_returns_iff:
  "(\<exists>c. calculateCoverage p start finish = Inr c)
     \<longleftrightarrow> (\<not> truthy (regulation p) \<or> (\<exists>r. regulation p = JStr r))"
proof -
  from parseDays_result[of "days p"] obtain ad where pd: "parseDays (days p) = Inr ad" by blast
  from parseTimeRange_total[of "hours p"] obtain tr where
    pt: "parseTimeRange (hours p) = Inr tr" by blast
  show ?thesis
  proof (cases "\<not> truthy (regulation p) \<or> (\<exists>r. regulation p = JStr r)")
    case True
    then have "\<exists>low. toLowerCaseM (jsOr (regulation p) (JStr [])) = Inr low"
      by (cases "regulation p") (auto simp: toLowerCaseM_def jsOr_def)
    then obtain low where "toLowerCaseM (jsOr (regulation p) (JStr [])) = Inr low" ..
    then have "\<exists>c. calculateCoverage p start finish = Inr c"
      by (simp add: calculateCoverage_def pd pt Let_def split: option.splits)
    with True show ?thesis by blast
  next
    case False
    then have "toLowerCaseM (jsOr (regulation p) (JStr [])) = Inl TypeError"
      by (cases "regulation p") (auto simp: toLowerCaseM_def jsOr_def)
    then have "calculateCoverage p start finish = Inl TypeError"
      by (simp add: calculateCoverage_def pd pt)
    with False show ?thesis by simp
  qed
qed

lemma coverage_numeric_regulation:
  "calculateCoverage (mkProps (JStr ''M-F'') (JStr ''0900-1800'') (JStr ''2'') (JNum (Num 1)))
     (mkDate 1 9 0) (mkDate 1 13 0) = Inl TypeError"
  by code_simp

text \<open>
  Claim C9 says that no call throws when the fields are strings, numbers or absent.
  With the number 1 as regulation, \<open>calculateCoverage\<close> throws a \<open>TypeError\<close>:
  \<open>(props.regulation || '')\<close> is the number, which has no \<open>toLowerCase\<close>.
\<close>

theorem calculateCoverage_numeric_regulation_throws:
  "calculateCoverage (mkProps (JStr ''M-F'') (JStr ''0900-1800'') (JStr ''2'') (JNum (Num 1)))
     (mkDate 1 9 0) (mkDate 1 13 0) = Inl TypeError
   \<and> (\<forall>c. calculateCoverage (mkProps (JStr ''M-F'') (JStr ''0900-1800'') (JStr ''2'') (JNum (Num 1)))
     (mkDate 1 9 0) (mkDate 1 13 0) \<noteq> Inr c)"
  using coverage_numeric_regulation by simp

end
